theory Spec2Isabelle
  imports Main "HOL-Library.Word"
begin

section \<open>PiRexBot: settings, command line and the control loop of pirexbot.cpp\<close>

subsection \<open>Data model\<close>

text \<open>
  \<open>UserGroup\<close> is the enumeration of XWebServer.hpp; pirexbot.cpp names the three
  enumerators below and only assigns and compares them.
\<close>

datatype UserGroup = Anyone | User | Admin

text \<open>The global \<open>Settings\<close> struct; \<open>uint32_t\<close> fields are 32-bit words.\<close>

record Settings =
  FrameWidth :: "32 word"
  FrameHeight :: "32 word"
  FrameRate :: "32 word"
  JpegQuality :: "32 word"
  WebPort :: "32 word"
  HtRealm :: string
  HtDigestFileName :: string
  CameraConfigFileName :: string
  CustomWebContent :: string
  BotTitle :: string
  ViewersGroup :: UserGroup
  ConfigGroup :: UserGroup

text \<open>
  The compile-time switches of the file: \<open>NDEBUG\<close>, and the macros of BotConfig.h
  (a header that is not part of the sources at hand), each taken as a parameter. A pin
  macro that is defined carries its pin number.
\<close>

record build =
  NDEBUG :: bool
  BOT_DISTANCE_ENABLE_MEASUREMENTS :: bool
  BOT_PIN_ON_LED :: "nat option"
  BOT_PIN_CONNECTION_ACTIVE_LED :: "nat option"

text \<open>What the program prints, one constructor per \<open>printf\<close> site.\<close>

datatype message =
    CameraErrorMsg bool string
  | WarnUsersFileNotSpecified
  | UsageHelp
  | WebServerStarted
  | CtrlCToStop
  | Done
  | FailedStartingWebServer

text \<open>
  The calls main and its helpers make on their collaborators (wiringPi, the camera,
  the web server, the serializer, the motors and distance controllers), in program
  order. \<open>AddHandler\<close> carries the path and the group passed (\<open>None\<close> where the call
  leaves the group to the default argument).
\<close>

datatype event =
    Printf message
  | WiringPiSetupPhys
  | PinMode nat
  | DigitalWrite nat bool
  | Sigaction
  | ServerCreate "32 word"
  | SetAuthDomain string
  | LoadUsersFromFile string
  | SetVideoSize "32 word" "32 word"
  | SetFrameRate "32 word"
  | SetJpegQuality "32 word"
  | LoadConfiguration
  | AddHandler string "UserGroup option"
  | SetDocumentRoot string
  | SetListener
  | ServerStart
  | CameraStart
  | StartMeasurements
  | StopMeasurements
  | SaveConfiguration
  | MotorsStop
  | SignalToStop
  | WaitForStop
  | ServerStop

subsection \<open>SetDefaultSettings\<close>

text \<open>
  \<open>pwd\<close> is the home directory of \<open>getpwuid (getuid ())\<close>, \<open>None\<close> for a null
  result; the camera configuration file then keeps the value it had.
\<close>

definition SetDefaultSettings :: "build \<Rightarrow> string option \<Rightarrow> Settings \<Rightarrow> Settings" where
  "SetDefaultSettings b pwd S =
     S\<lparr> FrameWidth := 640,
        FrameHeight := 480,
        FrameRate := 30,
        JpegQuality := 10,
        WebPort := 8000,
        HtRealm := ''pirexbot'',
        HtDigestFileName := [],
        ViewersGroup := Anyone,
        ConfigGroup := Anyone,
        CameraConfigFileName :=
          (case pwd of Some dir \<Rightarrow> dir @ ''/.cam_config'' | None \<Rightarrow> CameraConfigFileName S),
        CustomWebContent := (if NDEBUG b then [] else ''./web''),
        BotTitle := ''PiRex Bot'' \<rparr>"

subsection \<open>The C library's \<open>sscanf\<close> with the one conversion \<open>%u\<close>\<close>

text \<open>
  As the C standard has it: white space is skipped, a sign is optional, then decimal
  digits, at least one; the text after them is not looked at. The digits are converted
  as \<open>strtoul\<close> does on the 32-bit target: a value beyond \<open>ULONG_MAX\<close> gives
  \<open>ULONG_MAX\<close>, a minus sign negates modulo \<open>2 ^ 32\<close>. \<open>None\<close> stands for a
  return value other than 1; nothing is stored then.
\<close>

definition isspace :: "char \<Rightarrow> bool" where
  "isspace c = (c \<in> set [CHR '' '', CHR 0x09, CHR 0x0A, CHR 0x0B, CHR 0x0C, CHR 0x0D])"

definition isdigit :: "char \<Rightarrow> bool" where
  "isdigit c = (c \<in> set ''0123456789'')"

definition digit_value :: "char \<Rightarrow> nat" where
  "digit_value c = of_char c - 48"

definition decimal :: "string \<Rightarrow> nat" where
  "decimal ds = foldl (\<lambda>a c. 10 * a + digit_value c) 0 ds"

definition sscanf_u :: "string \<Rightarrow> 32 word option" where
  "sscanf_u s =
     (let s1 = dropWhile isspace s;
          neg = (s1 \<noteq> [] \<and> hd s1 = CHR ''-'');
          s2 = (if s1 \<noteq> [] \<and> (hd s1 = CHR ''-'' \<or> hd s1 = CHR ''+'') then tl s1 else s1);
          ds = takeWhile isdigit s2
      in if ds = [] then None
         else if decimal ds > 4294967295 then Some (- 1)
         else if neg then Some (- of_nat (decimal ds))
         else Some (of_nat (decimal ds)))"

subsection \<open>ParseCommandLine\<close>

definition SupportedWidth :: "32 word list" where
  "SupportedWidth = [320, 480, 640, 800, 1120]"

definition SupportedHeight :: "32 word list" where
  "SupportedHeight = [240, 360, 480, 600, 840]"

definition SupportedUserGroups :: "string \<rightharpoonup> UserGroup" where
  "SupportedUserGroups = map_of [(''any'', Anyone), (''user'', User), (''admin'', Admin)]"

text \<open>
  The variables the loop works on. A local group and the flag that guards it are one
  value: \<open>None\<close> while \<open>overrideViewersGroup\<close> is false (\<open>viewersGroup\<close> is then
  not initialised, and never read), \<open>Some g\<close> once the flag is set and the group
  assigned; the same for the configuration group.
\<close>

record parse_locals =
  settings :: Settings
  viewersGroup :: "UserGroup option"
  configGroup :: "UserGroup option"

text \<open>
  The key and the value of an argument: what lies between the first character and the
  first colon, and what follows that colon. An argument is a C string, so it holds no
  NUL character.
\<close>

definition arg_key :: "string \<Rightarrow> string" where
  "arg_key arg = tl (takeWhile (\<lambda>c. c \<noteq> CHR '':'') arg)"

definition arg_value :: "string \<Rightarrow> string" where
  "arg_value arg = tl (dropWhile (\<lambda>c. c \<noteq> CHR '':'') arg)"

text \<open>
  One pass through the body of the \<open>for\<close> loop on \<open>argv[i]\<close>: \<open>None\<close> is
  \<open>break\<close>, \<open>Some\<close> the variables at the end of the body. For \<open>size\<close>, the
  character is read as the unsigned \<open>char\<close> of the target; a signed one differs only on
  characters from 128 on, which both readings reject.
\<close>

definition parse_arg :: "string \<Rightarrow> parse_locals \<Rightarrow> parse_locals option" where
  "parse_arg arg st =
     (if CHR '':'' \<notin> set arg \<or> take 1 arg \<noteq> ''-'' then None
      else
        let key = arg_key arg; v = arg_value arg; S = settings st in
        if key = [] \<or> v = [] then None
        else if key = ''size'' then
          (let n = int (of_char (hd v)) - 48 in
           if n < 0 \<or> n > 4 then None
           else Some (st\<lparr>settings := S\<lparr>FrameWidth := SupportedWidth ! nat n,
                                        FrameHeight := SupportedHeight ! nat n\<rparr>\<rparr>))
        else if key = ''fps'' then
          (case sscanf_u v of
             None \<Rightarrow> None
           | Some r \<Rightarrow> Some (st\<lparr>settings := S\<lparr>FrameRate := (if r < 1 \<or> r > 30 then 30 else r)\<rparr>\<rparr>))
        else if key = ''jpeg'' then
          (case sscanf_u v of
             None \<Rightarrow> None
           | Some q \<Rightarrow>
               (let q1 = (if q < 1 then 1 else q);
                    q2 = (if q1 > 100 then 100 else q1)
                in Some (st\<lparr>settings := S\<lparr>JpegQuality := q2\<rparr>\<rparr>)))
        else if key = ''port'' then
          (case sscanf_u v of
             None \<Rightarrow> None
           | Some p \<Rightarrow> Some (st\<lparr>settings := S\<lparr>WebPort := (if p > 65535 then 65535 else p)\<rparr>\<rparr>))
        else if key = ''realm'' then Some (st\<lparr>settings := S\<lparr>HtRealm := v\<rparr>\<rparr>)
        else if key = ''htpass'' then
          Some (st\<lparr>settings := S\<lparr>HtDigestFileName := v, ViewersGroup := User, ConfigGroup := Admin\<rparr>\<rparr>)
        else if key = ''viewer'' then
          (case SupportedUserGroups v of
             None \<Rightarrow> None
           | Some g \<Rightarrow> Some (st\<lparr>viewersGroup := Some g\<rparr>))
        else if key = ''config'' then
          (case SupportedUserGroups v of
             None \<Rightarrow> None
           | Some g \<Rightarrow> Some (st\<lparr>configGroup := Some g\<rparr>))
        else if key = ''fcfg'' then Some (st\<lparr>settings := S\<lparr>CameraConfigFileName := v\<rparr>\<rparr>)
        else if key = ''web'' then Some (st\<lparr>settings := S\<lparr>CustomWebContent := v\<rparr>\<rparr>)
        else if key = ''title'' then Some (st\<lparr>settings := S\<lparr>BotTitle := v\<rparr>\<rparr>)
        else None)"

text \<open>
  The loop \<open>for ( i = 1; i < argc; i++ )\<close> with \<open>argc = length argv\<close>; the result is
  the value of \<open>i\<close> and of the variables when the loop is left.
\<close>

function parse_loop :: "string list \<Rightarrow> nat \<Rightarrow> parse_locals \<Rightarrow> nat \<times> parse_locals" where
  "parse_loop argv i st =
     (if i < length argv then
        (case parse_arg (argv ! i) st of
           None \<Rightarrow> (i, st)
         | Some st' \<Rightarrow> parse_loop argv (i + 1) st')
      else (i, st))"
  by pat_completeness auto
termination
  by (relation "measure (\<lambda>(argv, i, st). length argv - i)") auto

declare parse_loop.simps [simp del]

text \<open>
  The groups are settled after the loop, then the help is printed when the loop was
  left early. The result is the return value, the settings and what was printed.
\<close>

definition ParseCommandLine :: "string list \<Rightarrow> Settings \<Rightarrow> bool \<times> Settings \<times> event list" where
  "ParseCommandLine argv S0 =
     (let (i, st) = parse_loop argv 1 \<lparr>settings = S0, viewersGroup = None, configGroup = None\<rparr>;
          S = settings st;
          ignored = (((viewersGroup st \<noteq> None \<and> viewersGroup st \<noteq> Some Anyone) \<or>
                      (configGroup st \<noteq> None \<and> configGroup st \<noteq> Some Anyone)) \<and>
                     HtDigestFileName S = []);
          S1 = (if ignored then S
                else
                  (let Sv = (case viewersGroup st of Some g \<Rightarrow> S\<lparr>ViewersGroup := g\<rparr> | None \<Rightarrow> S)
                   in (case configGroup st of Some g \<Rightarrow> Sv\<lparr>ConfigGroup := g\<rparr> | None \<Rightarrow> Sv)));
          out1 = (if ignored then [Printf WarnUsersFileNotSpecified] else [])
      in if i \<noteq> length argv then (False, S1, out1 @ [Printf UsageHelp])
         else (True, S1, out1))"

subsection \<open>The exit event and its two signalling sites\<close>

text \<open>
  Modelled from the spec: \<open>XManualResetEvent\<close>, the class of \<open>ExitEvent\<close>, whose
  header XManualResetEvent.hpp is not among the sources. The spec has it as "a single
  boolean-valued event, initially unset", where "repeated sets are idempotent",
  "observable via a bounded-timeout wait that returns set or timed out". The event
  is its flag; \<open>Wait\<close> returns true when the flag is set within the timeout, and
  false when the timeout passes first.
\<close>

definition Signal :: "bool \<Rightarrow> bool" where
  "Signal ev = True"

definition Wait :: "bool \<Rightarrow> bool" where
  "Wait ev = ev"

definition sigIntHandler :: "int \<Rightarrow> bool \<Rightarrow> bool" where
  "sigIntHandler s ev = Signal ev"

text \<open>\<open>CameraErrorListener::OnError\<close>: the event afterwards and what was printed.\<close>

definition OnError :: "string \<Rightarrow> bool \<Rightarrow> bool \<Rightarrow> bool \<times> event list" where
  "OnError errorMessage fatal ev =
     (if fatal then Signal ev else ev, [Printf (CameraErrorMsg fatal errorMessage)])"

text \<open>
  What reaches the two sites from outside the control thread: a signal for which main
  installed \<open>sigIntHandler\<close>, or an error the camera passes to the listener chain.
\<close>

datatype notification = OsSignal int | VideoSourceError string bool

fun deliver :: "notification \<Rightarrow> bool \<Rightarrow> bool \<times> event list" where
  "deliver (OsSignal s) ev = (sigIntHandler s ev, [])"
| "deliver (VideoSourceError errorMessage fatal) ev = OnError errorMessage fatal ev"

fun deliver_all :: "notification list \<Rightarrow> bool \<Rightarrow> bool \<times> event list" where
  "deliver_all [] ev = (ev, [])"
| "deliver_all (n # ns) ev =
     (let (ev1, out1) = deliver n ev; (ev2, out2) = deliver_all ns ev1 in (ev2, out1 @ out2))"

subsection \<open>The control loop of main\<close>

text \<open>
  What one iteration of the loop meets: the notifications that arrived up to the return
  of \<open>ExitEvent.Wait ( 1000 )\<close>, and the readings of \<open>steady_clock::now ( )\<close> and of
  \<open>server.LastAccessTime\<close> taken in the body, for the motors and for the activity
  LED. A reading is the tick count of the time point, in nanoseconds; the 64-bit range
  of the count is not modelled.
\<close>

record tick_env =
  arrived :: "notification list"
  now_motors :: int
  lastMotorsAccess :: int
  now_led :: int
  lastAccess :: int

text \<open>\<open>duration_cast<milliseconds>\<close> of a count of nanoseconds truncates towards zero.\<close>

definition duration_cast_milliseconds :: "int \<Rightarrow> int" where
  "duration_cast_milliseconds d = (if d < 0 then - ((- d) div 1000000) else d div 1000000)"

text \<open>The body of the \<open>while\<close> loop: the new \<open>saveCounter\<close> and the calls made.\<close>

definition loop_body :: "build \<Rightarrow> tick_env \<Rightarrow> int \<Rightarrow> int \<times> event list" where
  "loop_body b e saveCounter =
     (let c = saveCounter + 1;
          save = (if c = 60 then [SaveConfiguration] else []);
          c' = (if c = 60 then 0 else c);
          timeSinceMotorAccess = duration_cast_milliseconds (now_motors e - lastMotorsAccess e);
          motors = (if timeSinceMotorAccess \<ge> 1000 then [MotorsStop] else []);
          led = (case BOT_PIN_CONNECTION_ACTIVE_LED b of
                   None \<Rightarrow> []
                 | Some pin \<Rightarrow>
                     (let timeSinceLastAccess = duration_cast_milliseconds (now_led e - lastAccess e)
                      in [DigitalWrite pin (timeSinceLastAccess < 2000)]))
      in (c', save @ motors @ led))"

text \<open>
  \<open>while ( !ExitEvent.Wait( 1000 ) )\<close> on the iterations the environment describes.
  The loop ends only when the event is set: when the description runs out before
  that, the loop has not returned, which is \<open>None\<close>.
\<close>

fun run_loop :: "build \<Rightarrow> tick_env list \<Rightarrow> bool \<Rightarrow> int \<Rightarrow> event list option" where
  "run_loop b [] ExitEvent saveCounter = None"
| "run_loop b (e # es) ExitEvent saveCounter =
     (if Wait (fst (deliver_all (arrived e) ExitEvent))
      then Some (snd (deliver_all (arrived e) ExitEvent))
      else map_option
             (\<lambda>rest. snd (deliver_all (arrived e) ExitEvent) @ snd (loop_body b e saveCounter) @ rest)
             (run_loop b es (fst (deliver_all (arrived e) ExitEvent)) (fst (loop_body b e saveCounter))))"

subsection \<open>main\<close>

definition BotInit :: "build \<Rightarrow> event list" where
  "BotInit b =
     [WiringPiSetupPhys]
     @ (case BOT_PIN_ON_LED b of None \<Rightarrow> [] | Some pin \<Rightarrow> [PinMode pin, DigitalWrite pin True])
     @ (case BOT_PIN_CONNECTION_ACTIVE_LED b of
          None \<Rightarrow> [] | Some pin \<Rightarrow> [PinMode pin, DigitalWrite pin False])"

definition BotShutDown :: "build \<Rightarrow> event list" where
  "BotShutDown b =
     (case BOT_PIN_ON_LED b of None \<Rightarrow> [] | Some pin \<Rightarrow> [DigitalWrite pin False])
     @ (case BOT_PIN_CONNECTION_ACTIVE_LED b of None \<Rightarrow> [] | Some pin \<Rightarrow> [DigitalWrite pin False])"

text \<open>
  The global \<open>Settings\<close> before main runs: zeroes and empty strings. The value of the
  two groups there is that of the enumeration's zero, which the sources at hand do not
  give; \<open>SetDefaultSettings\<close> overwrites both before anything reads them.
\<close>

definition Settings_static :: Settings where
  "Settings_static =
     \<lparr> FrameWidth = 0, FrameHeight = 0, FrameRate = 0, JpegQuality = 0, WebPort = 0,
       HtRealm = [], HtDigestFileName = [], CameraConfigFileName = [],
       CustomWebContent = [], BotTitle = [], ViewersGroup = Anyone, ConfigGroup = Anyone \<rparr>"

text \<open>The handlers of the embedded web content, added in release builds.\<close>

definition embedded_handlers :: "Settings \<Rightarrow> event list" where
  "embedded_handlers S =
     (let viewers = Some (ViewersGroup S); config = Some (ConfigGroup S) in
      [ AddHandler ''/'' viewers,
        AddHandler ''index.html'' viewers,
        AddHandler ''styles.css'' viewers,
        AddHandler ''pirex.png'' None,
        AddHandler ''pirex_white.png'' None,
        AddHandler ''camera.js'' viewers,
        AddHandler ''cameraproperties.js'' viewers,
        AddHandler ''cameraproperties.html'' config,
        AddHandler ''botcontrols.html'' config,
        AddHandler ''jquery.js'' viewers,
        AddHandler ''jquery.mobile.js'' viewers,
        AddHandler ''jquery.mobile.css'' viewers,
        AddHandler ''forward.png'' None,
        AddHandler ''backward.png'' None,
        AddHandler ''slight_left.png'' None,
        AddHandler ''slight_right.png'' None,
        AddHandler ''rotate_left.png'' None,
        AddHandler ''rotate_right.png'' None ])"

text \<open>
  main from \<open>BotInit\<close> up to the call of \<open>server.Start\<close>: the calls made on the
  collaborators with the settings parsed.
\<close>

definition main_setup :: "build \<Rightarrow> Settings \<Rightarrow> event list" where
  "main_setup b S =
     (let viewers = Some (ViewersGroup S); config = Some (ConfigGroup S) in
      BotInit b
      @ [Sigaction, Sigaction, Sigaction, Sigaction, Sigaction]
      @ [ServerCreate (WebPort S)]
      @ (if HtRealm S \<noteq> [] then [SetAuthDomain (HtRealm S)] else [])
      @ (if HtDigestFileName S \<noteq> [] then [LoadUsersFromFile (HtDigestFileName S)] else [])
      @ [ SetVideoSize (FrameWidth S) (FrameHeight S),
          SetFrameRate (FrameRate S),
          SetJpegQuality (JpegQuality S),
          LoadConfiguration,
          AddHandler ''/version'' None,
          AddHandler ''/camera/config'' config,
          AddHandler ''/motors/config'' config,
          AddHandler ''/camera/properties'' config,
          AddHandler ''/camera/info'' viewers,
          AddHandler ''/info'' viewers,
          AddHandler ''/camera/jpeg'' viewers,
          AddHandler ''/camera/mjpeg'' viewers ]
      @ (if BOT_DISTANCE_ENABLE_MEASUREMENTS b then [AddHandler ''/distance'' viewers] else [])
      @ (if CustomWebContent S \<noteq> [] then [SetDocumentRoot (CustomWebContent S)]
         else if NDEBUG b then embedded_handlers S else [])
      @ [SetListener, ServerStart])"

text \<open>What main does once the loop is left, up to its \<open>return\<close>.\<close>

definition main_shutdown :: "build \<Rightarrow> event list" where
  "main_shutdown b =
     (if BOT_DISTANCE_ENABLE_MEASUREMENTS b then [StopMeasurements] else [])
     @ [SaveConfiguration, SignalToStop, WaitForStop, ServerStop, Printf Done]
     @ BotShutDown b"

text \<open>
  main: \<open>pwd\<close> is the home directory \<open>SetDefaultSettings\<close> finds, \<open>started\<close> the
  result of \<open>server.Start ( )\<close>, \<open>env\<close> what the loop meets. The result is the value
  returned and the calls made, \<open>None\<close> when the loop does not return within \<open>env\<close>.
\<close>

definition main :: "build \<Rightarrow> string option \<Rightarrow> string list \<Rightarrow> bool \<Rightarrow> tick_env list \<Rightarrow> (int \<times> event list) option" where
  "main b pwd argv started env =
     (let (parsed, S, out) = ParseCommandLine argv (SetDefaultSettings b pwd Settings_static) in
      if \<not> parsed then Some (- 1, out)
      else if started then
        (case run_loop b env False 0 of
           None \<Rightarrow> None
         | Some loop \<Rightarrow>
             Some (0, out @ main_setup b S
                      @ [Printf WebServerStarted, Printf CtrlCToStop, CameraStart]
                      @ (if BOT_DISTANCE_ENABLE_MEASUREMENTS b then [StartMeasurements] else [])
                      @ loop
                      @ main_shutdown b))
      else Some (0, out @ main_setup b S @ [Printf FailedStartingWebServer] @ BotShutDown b))"

subsection \<open>Notions the properties are stated with\<close>

text \<open>
  A release build with both LEDs (the pin numbers are examples), and the settings main
  starts from under it, for the worked examples.
\<close>

definition example_build :: build where
  "example_build =
     \<lparr> NDEBUG = True, BOT_DISTANCE_ENABLE_MEASUREMENTS = False,
       BOT_PIN_ON_LED = Some 11, BOT_PIN_CONNECTION_ACTIVE_LED = Some 13 \<rparr>"

definition example_settings :: Settings where
  "example_settings = SetDefaultSettings example_build (Some ''/home/pi'') Settings_static"

definition debug_build :: build where
  "debug_build =
     \<lparr> NDEBUG = False, BOT_DISTANCE_ENABLE_MEASUREMENTS = True,
       BOT_PIN_ON_LED = None, BOT_PIN_CONNECTION_ACTIVE_LED = None \<rparr>"

text \<open>
  An iteration with nothing arrived, 1500 ms after the last access to the motors and
  200 ms after the last access of all.
\<close>

definition idle_tick :: tick_env where
  "idle_tick =
     \<lparr> arrived = [], now_motors = 5000000000, lastMotorsAccess = 3500000000,
       now_led = 5000000000, lastAccess = 4800000000 \<rparr>"

text \<open>
  The ways an argument can make the loop stop. An argument is malformed when it has no
  colon, does not start with the option marker, or its key or its value is empty; its
  key is unrecognized when it is none of the eleven options; its value is refused when
  the option's own check fails: the first character of a size is not one of 0 to 4, a
  number does not scan, a group is not one of the three names. The first two are the
  conditions the specification names; the third collects the checks the body of the loop
  makes on values.
\<close>

definition malformed :: "string \<Rightarrow> bool" where
  "malformed arg =
     (CHR '':'' \<notin> set arg \<or> take 1 arg \<noteq> ''-'' \<or> arg_key arg = [] \<or> arg_value arg = [])"

definition known_keys :: "string list" where
  "known_keys = [''size'', ''fps'', ''jpeg'', ''port'', ''realm'', ''htpass'',
                 ''viewer'', ''config'', ''fcfg'', ''web'', ''title'']"

definition unrecognized :: "string \<Rightarrow> bool" where
  "unrecognized arg = (arg_key arg \<notin> set known_keys)"

definition value_refused :: "string \<Rightarrow> bool" where
  "value_refused arg =
     (let key = arg_key arg; v = arg_value arg in
      (key = ''size'' \<and> hd v \<notin> set ''01234'') \<or>
      (key \<in> set [''fps'', ''jpeg'', ''port''] \<and> sscanf_u v = None) \<or>
      (key \<in> set [''viewer'', ''config''] \<and> v \<notin> set [''any'', ''user'', ''admin'']))"

definition arg_rejected :: "string \<Rightarrow> bool" where
  "arg_rejected arg = (malformed arg \<or> unrecognized arg \<or> value_refused arg)"

text \<open>
  The arguments the loop consumes: those after the name of the program, up to the first
  one that is rejected. The values given to an option among some arguments, in their
  order, and the group requested for \<open>-viewer\<close> or \<open>-config\<close>: the one the last
  of these values names, \<open>None\<close> when the option does not occur.
\<close>

definition consumed :: "string list \<Rightarrow> string list" where
  "consumed argv = takeWhile (\<lambda>arg. \<not> arg_rejected arg) (tl argv)"

definition option_values :: "string \<Rightarrow> string list \<Rightarrow> string list" where
  "option_values key args = map arg_value (filter (\<lambda>arg. arg_key arg = key) args)"

definition requested :: "string \<Rightarrow> string list \<Rightarrow> UserGroup option" where
  "requested key args =
     (if option_values key args = [] then None
      else SupportedUserGroups (last (option_values key args)))"

text \<open>Conditions on the variables of the loop that each pass of its body keeps.\<close>

definition no_users_file_inv :: "parse_locals \<Rightarrow> bool" where
  "no_users_file_inv s = (HtDigestFileName (settings s) \<noteq> [] \<or>
      (ViewersGroup (settings s) = Anyone \<and> ConfigGroup (settings s) = Anyone))"

definition users_file_inv :: "parse_locals \<Rightarrow> bool" where
  "users_file_inv s = (HtDigestFileName (settings s) \<noteq> [] \<and>
      ViewersGroup (settings s) = User \<and> ConfigGroup (settings s) = Admin)"

definition in_ranges :: "parse_locals \<Rightarrow> bool" where
  "in_ranges s = (1 \<le> FrameRate (settings s) \<and> FrameRate (settings s) \<le> 30 \<and>
                  1 \<le> JpegQuality (settings s) \<and> JpegQuality (settings s) \<le> 100 \<and>
                  WebPort (settings s) \<le> 65535)"

text \<open>
  A notification that sets the exit event, and the iterations of the loop at which the
  wait timed out: the counter after them and the calls made in them.
\<close>

fun is_exit :: "notification \<Rightarrow> bool" where
  "is_exit (OsSignal s) = True"
| "is_exit (VideoSourceError errorMessage fatal) = fatal"

fun loop_iterations :: "build \<Rightarrow> tick_env list \<Rightarrow> int \<Rightarrow> int \<times> event list" where
  "loop_iterations b [] saveCounter = (saveCounter, [])"
| "loop_iterations b (e # es) saveCounter =
     (fst (loop_iterations b es (fst (loop_body b e saveCounter))),
      snd (deliver_all (arrived e) False) @ snd (loop_body b e saveCounter)
        @ snd (loop_iterations b es (fst (loop_body b e saveCounter))))"

section \<open>Properties\<close>

subsection \<open>The loop over the arguments\<close>

lemmas scan_defs = sscanf_u_def isspace_def isdigit_def decimal_def digit_value_def
lemmas arg_defs = parse_arg_def arg_key_def arg_value_def SupportedWidth_def SupportedHeight_def
  SupportedUserGroups_def

lemma parse_loop_end: "\<not> i < length argv \<Longrightarrow> parse_loop argv i st = (i, st)"
  by (simp add: parse_loop.simps)

lemma parse_loop_break:
  "i < length argv \<Longrightarrow> parse_arg (argv ! i) st = None \<Longrightarrow> parse_loop argv i st = (i, st)"
  by (simp add: parse_loop.simps)

lemma parse_loop_step:
  "i < length argv \<Longrightarrow> parse_arg (argv ! i) st = Some st' \<Longrightarrow>
   parse_loop argv i st = parse_loop argv (Suc i) st'"
  by (simp add: parse_loop.simps)

lemma parse_loop_bounds:
  "parse_loop argv i st = (j, st') \<Longrightarrow> i \<le> j \<and> (i \<le> length argv \<longrightarrow> j \<le> length argv)"
proof (induction argv i st rule: parse_loop.induct)
  case (1 argv i st)
  show ?case
  proof (cases "i < length argv")
    case False
    with "1.prems" show ?thesis by (simp add: parse_loop_end)
  next
    case True
    show ?thesis
    proof (cases "parse_arg (argv ! i) st")
      case None
      with True "1.prems" show ?thesis by (simp add: parse_loop_break)
    next
      case (Some st1)
      with True "1.prems" have "parse_loop argv (i + 1) st1 = (j, st')"
        by (simp add: parse_loop_step)
      from "1.IH" [OF True Some this] True show ?thesis by simp
    qed
  qed
qed

text \<open>A condition that every pass of the body keeps holds when the loop is left.\<close>

lemma parse_loop_invariant:
  assumes "parse_loop argv i st = (j, st')" and "P st"
    and "\<And>arg s s'. P s \<Longrightarrow> parse_arg arg s = Some s' \<Longrightarrow> P s'"
  shows "P st'"
  using assms(1,2)
proof (induction argv i st rule: parse_loop.induct)
  case (1 argv i st)
  show ?case
  proof (cases "i < length argv")
    case False
    with "1.prems" show ?thesis by (simp add: parse_loop_end)
  next
    case True
    show ?thesis
    proof (cases "parse_arg (argv ! i) st")
      case None
      with True "1.prems" show ?thesis by (simp add: parse_loop_break)
    next
      case (Some st1)
      with True "1.prems" have run: "parse_loop argv (i + 1) st1 = (j, st')"
        by (simp add: parse_loop_step)
      from assms(3) [OF "1.prems"(2) Some] have "P st1" .
      from "1.IH" [OF True Some run this] show ?thesis .
    qed
  qed
qed

lemma ParseCommandLine_unfold:
  assumes "parse_loop argv 1 \<lparr>settings = S0, viewersGroup = None, configGroup = None\<rparr> = (i, st)"
  shows "ParseCommandLine argv S0 =
     (let S = settings st;
          ignored = (((viewersGroup st \<noteq> None \<and> viewersGroup st \<noteq> Some Anyone) \<or>
                      (configGroup st \<noteq> None \<and> configGroup st \<noteq> Some Anyone)) \<and>
                     HtDigestFileName S = []);
          S1 = (if ignored then S
                else
                  (let Sv = (case viewersGroup st of Some g \<Rightarrow> S\<lparr>ViewersGroup := g\<rparr> | None \<Rightarrow> S)
                   in (case configGroup st of Some g \<Rightarrow> Sv\<lparr>ConfigGroup := g\<rparr> | None \<Rightarrow> Sv)));
          out1 = (if ignored then [Printf WarnUsersFileNotSpecified] else [])
      in if i \<noteq> length argv then (False, S1, out1 @ [Printf UsageHelp])
         else (True, S1, out1))"
  using assms by (simp add: ParseCommandLine_def)

lemma size_digit: "(int (of_char c) - 48 < 0 \<or> int (of_char c) - 48 > 4) = (c \<notin> set ''01234'')"
proof -
  have eq: "\<And>d. (c = d) = (of_char c = (of_char d :: nat))"
    by simp
  have "(c \<in> set ''01234'') = (of_char c \<in> {48::nat, 49, 50, 51, 52})"
    by (simp add: eq [of "CHR ''0''"] eq [of "CHR ''1''"] eq [of "CHR ''2''"]
        eq [of "CHR ''3''"] eq [of "CHR ''4''"])
  also have "\<dots> = (\<not> (int (of_char c) - 48 < 0 \<or> int (of_char c) - 48 > 4))"
    by auto
  finally show ?thesis by simp
qed

lemma groups_None: "(SupportedUserGroups v = None) = (v \<notin> set [''any'', ''user'', ''admin''])"
  by (simp add: SupportedUserGroups_def)

lemma parse_arg_None_iff: "(parse_arg arg st = None) = arg_rejected arg"
proof (cases "malformed arg")
  case True
  then show ?thesis
    by (auto simp: parse_arg_def arg_rejected_def malformed_def Let_def)
next
  case False
  then have wf: "CHR '':'' \<in> set arg" "take 1 arg = ''-''" "arg_key arg \<noteq> []" "arg_value arg \<noteq> []"
    by (auto simp: malformed_def)
  note facts = False wf size_digit [of "hd (arg_value arg)"] groups_None [of "arg_value arg"]
  note defs = parse_arg_def Let_def arg_rejected_def unrecognized_def value_refused_def known_keys_def
  consider (size) "arg_key arg = ''size''" | (fps) "arg_key arg = ''fps''"
    | (jpeg) "arg_key arg = ''jpeg''" | (port) "arg_key arg = ''port''"
    | (realm) "arg_key arg = ''realm''" | (htpass) "arg_key arg = ''htpass''"
    | (viewer) "arg_key arg = ''viewer''" | (config) "arg_key arg = ''config''"
    | (fcfg) "arg_key arg = ''fcfg''" | (web) "arg_key arg = ''web''"
    | (title) "arg_key arg = ''title''" | (other) "arg_key arg \<notin> set known_keys"
    by (auto simp: known_keys_def)
  then show ?thesis
  proof cases
    case size
    with facts show ?thesis by (simp add: defs)
  next
    case fps
    with facts show ?thesis by (simp add: defs split: option.splits)
  next
    case jpeg
    with facts show ?thesis by (simp add: defs split: option.splits)
  next
    case port
    with facts show ?thesis by (simp add: defs split: option.splits)
  next
    case realm
    with facts show ?thesis by (simp add: defs)
  next
    case htpass
    with facts show ?thesis by (simp add: defs)
  next
    case viewer
    with facts show ?thesis by (auto simp: defs split: option.splits)
  next
    case config
    with facts show ?thesis by (auto simp: defs split: option.splits)
  next
    case fcfg
    with facts show ?thesis by (simp add: defs)
  next
    case web
    with facts show ?thesis by (simp add: defs)
  next
    case title
    with facts show ?thesis by (simp add: defs)
  next
    case other
    with facts show ?thesis by (simp add: defs)
  qed
qed

lemma parse_loop_prefix:
  "parse_loop argv i st = (j, st') \<Longrightarrow> i \<le> length argv \<Longrightarrow>
   parse_loop (take j argv) i st = (j, st')"
proof (induction argv i st rule: parse_loop.induct)
  case (1 argv i st)
  show ?case
  proof (cases "i < length argv")
    case False
    with "1.prems" show ?thesis by (simp add: parse_loop_end)
  next
    case True
    show ?thesis
    proof (cases "parse_arg (argv ! i) st")
      case None
      with True "1.prems" show ?thesis by (simp add: parse_loop_break parse_loop_end)
    next
      case (Some st1)
      with True "1.prems" have run: "parse_loop argv (i + 1) st1 = (j, st')"
        by (simp add: parse_loop_step)
      from parse_loop_bounds [OF run] True have j: "i < j" "j \<le> length argv" by auto
      from "1.IH" [OF True Some run] True
      have "parse_loop (take j argv) (i + 1) st1 = (j, st')" by simp
      moreover from j have "i < length (take j argv)" "take j argv ! i = argv ! i" by auto
      ultimately show ?thesis using Some by (simp add: parse_loop_step)
    qed
  qed
qed

lemma parse_loop_accepted:
  "parse_loop argv i st = (j, st') \<Longrightarrow> i \<le> k \<Longrightarrow> k < j \<Longrightarrow> \<not> arg_rejected (argv ! k)"
proof (induction argv i st rule: parse_loop.induct)
  case (1 argv i st)
  show ?case
  proof (cases "i < length argv")
    case False
    with "1.prems" show ?thesis by (simp add: parse_loop_end)
  next
    case True
    show ?thesis
    proof (cases "parse_arg (argv ! i) st")
      case None
      with True "1.prems" show ?thesis by (simp add: parse_loop_break)
    next
      case (Some st1)
      with True "1.prems" have run: "parse_loop argv (i + 1) st1 = (j, st')"
        by (simp add: parse_loop_step)
      show ?thesis
      proof (cases "k = i")
        case True
        with Some parse_arg_None_iff [of "argv ! i" st] show ?thesis by simp
      next
        case False
        with "1.prems" have "i + 1 \<le> k" by simp
        from "1.IH" [OF True Some run this "1.prems"(3)] show ?thesis .
      qed
    qed
  qed
qed

lemma parse_loop_stopped:
  "parse_loop argv i st = (j, st') \<Longrightarrow> j < length argv \<Longrightarrow> arg_rejected (argv ! j)"
proof (induction argv i st rule: parse_loop.induct)
  case (1 argv i st)
  show ?case
  proof (cases "i < length argv")
    case False
    with "1.prems" show ?thesis by (simp add: parse_loop_end)
  next
    case True
    show ?thesis
    proof (cases "parse_arg (argv ! i) st")
      case None
      with True "1.prems" parse_arg_None_iff [of "argv ! i" st] show ?thesis
        by (simp add: parse_loop_break)
    next
      case (Some st1)
      with True "1.prems" have run: "parse_loop argv (i + 1) st1 = (j, st')"
        by (simp add: parse_loop_step)
      from "1.IH" [OF True Some run "1.prems"(2)] show ?thesis .
    qed
  qed
qed

lemma ParseCommandLine_loop:
  assumes "parse_loop argv 1 \<lparr>settings = S0, viewersGroup = None, configGroup = None\<rparr> = (i, st)"
  shows "fst (ParseCommandLine argv S0) = (i = length argv)"
    and "fst (snd (ParseCommandLine argv S0)) = fst (snd (ParseCommandLine (take i argv) S0))"
    and "1 \<le> length argv \<Longrightarrow> snd (snd (ParseCommandLine argv S0)) =
         snd (snd (ParseCommandLine (take i argv) S0)) @ (if i = length argv then [] else [Printf UsageHelp])"
    and "1 \<le> length argv \<Longrightarrow> fst (ParseCommandLine (take i argv) S0)"
proof -
  show "fst (ParseCommandLine argv S0) = (i = length argv)"
    using assms by (simp add: ParseCommandLine_def Let_def)
  have le: "1 \<le> length argv \<Longrightarrow> i \<le> length argv"
    using parse_loop_bounds [OF assms] by simp
  have pre: "1 \<le> length argv \<Longrightarrow> parse_loop (take i argv) 1 \<lparr>settings = S0, viewersGroup = None, configGroup = None\<rparr> = (i, st)"
    using parse_loop_prefix [OF assms] by simp
  have pre0: "\<not> 1 \<le> length argv \<Longrightarrow> parse_loop (take i argv) 1 \<lparr>settings = S0, viewersGroup = None, configGroup = None\<rparr> = (i, st)"
    using assms by (simp add: parse_loop_end)
  from pre pre0 have pre': "parse_loop (take i argv) 1 \<lparr>settings = S0, viewersGroup = None, configGroup = None\<rparr> = (i, st)"
    by blast
  show "fst (snd (ParseCommandLine argv S0)) = fst (snd (ParseCommandLine (take i argv) S0))"
    using assms pre' by (simp add: ParseCommandLine_def Let_def)
  show "1 \<le> length argv \<Longrightarrow> snd (snd (ParseCommandLine argv S0)) =
         snd (snd (ParseCommandLine (take i argv) S0)) @ (if i = length argv then [] else [Printf UsageHelp])"
    using assms pre' le by (simp add: ParseCommandLine_def Let_def min_def)
  show "1 \<le> length argv \<Longrightarrow> fst (ParseCommandLine (take i argv) S0)"
    using pre' le by (simp add: ParseCommandLine_def Let_def min_def)
qed

lemma parse_arg_no_users_file_inv:
  "no_users_file_inv s \<Longrightarrow> parse_arg arg s = Some s' \<Longrightarrow> no_users_file_inv s'"
  unfolding parse_arg_def Let_def no_users_file_inv_def
  by (simp split: if_splits option.splits) auto

lemma sscanf_u_Nil: "sscanf_u [] = None"
  by (simp add: sscanf_u_def)

lemma key_of_option: "CHR '':'' \<notin> set k \<Longrightarrow> arg_key (CHR ''-'' # k @ CHR '':'' # v) = k"
  by (auto simp: arg_key_def takeWhile_append)

lemma value_of_option: "CHR '':'' \<notin> set k \<Longrightarrow> arg_value (CHR ''-'' # k @ CHR '':'' # v) = v"
  by (auto simp: arg_value_def dropWhile_append)

lemma parse_arg_fps:
  "sscanf_u v = Some r \<Longrightarrow>
   parse_arg (''-fps:'' @ v) st =
     Some (st\<lparr>settings := (settings st)\<lparr>FrameRate := (if r < 1 \<or> 30 < r then 30 else r)\<rparr>\<rparr>)"
  using key_of_option [of "''fps''" v] value_of_option [of "''fps''" v] sscanf_u_Nil
  by (cases v) (auto simp: parse_arg_def)

lemma parse_arg_jpeg:
  "sscanf_u v = Some q \<Longrightarrow>
   parse_arg (''-jpeg:'' @ v) st =
     Some (st\<lparr>settings := (settings st)\<lparr>JpegQuality := (if q < 1 then 1 else if 100 < q then 100 else q)\<rparr>\<rparr>)"
  using key_of_option [of "''jpeg''" v] value_of_option [of "''jpeg''" v] sscanf_u_Nil
  by (cases v) (auto simp: parse_arg_def)

lemma parse_arg_port:
  "sscanf_u v = Some p \<Longrightarrow>
   parse_arg (''-port:'' @ v) st =
     Some (st\<lparr>settings := (settings st)\<lparr>WebPort := (if 65535 < p then 65535 else p)\<rparr>\<rparr>)"
  using key_of_option [of "''port''" v] value_of_option [of "''port''" v] sscanf_u_Nil
  by (cases v) (auto simp: parse_arg_def)

lemma one_le_word: "x \<noteq> 0 \<Longrightarrow> 1 \<le> (x::32 word)"
  by (simp add: not_less [symmetric])

lemma parse_arg_in_ranges: "in_ranges s \<Longrightarrow> parse_arg arg s = Some s' \<Longrightarrow> in_ranges s'"
  unfolding parse_arg_def Let_def in_ranges_def
  by (simp split: if_splits option.splits) (auto simp: not_less one_le_word)

lemma scenario_loop:
  "parse_loop [''pirexbot'', ''-port:9090'', ''-fps:45'', ''-jpeg:150''] 1
     \<lparr>settings = S, viewersGroup = None, configGroup = None\<rparr> =
   (4, \<lparr>settings = S\<lparr>WebPort := 9090, FrameRate := 30, JpegQuality := 100\<rparr>,
        viewersGroup = None, configGroup = None\<rparr>)"
  by (simp add: parse_loop.simps arg_defs scan_defs)

lemma parse_arg_users_file_inv:
  "users_file_inv s \<Longrightarrow> parse_arg arg s = Some s' \<Longrightarrow> users_file_inv s'"
  unfolding parse_arg_def Let_def users_file_inv_def
  by (simp split: if_splits option.splits) auto

lemma parse_arg_htpass:
  "v \<noteq> [] \<Longrightarrow>
   parse_arg (''-htpass:'' @ v) s =
     Some (s\<lparr>settings := (settings s)
              \<lparr>HtDigestFileName := v, ViewersGroup := User, ConfigGroup := Admin\<rparr>\<rparr>)"
  using key_of_option [of "''htpass''" v] value_of_option [of "''htpass''" v]
  by (simp add: parse_arg_def)

lemma parse_loop_htpass:
  "parse_loop argv i st = (j, st') \<Longrightarrow> i \<le> k \<Longrightarrow> k < j \<Longrightarrow>
   argv ! k = ''-htpass:'' @ v \<Longrightarrow> v \<noteq> [] \<Longrightarrow> users_file_inv st'"
proof (induction argv i st rule: parse_loop.induct)
  case (1 argv i st)
  show ?case
  proof (cases "i < length argv")
    case False
    with "1.prems" show ?thesis by (simp add: parse_loop_end)
  next
    case True
    show ?thesis
    proof (cases "parse_arg (argv ! i) st")
      case None
      with True "1.prems" show ?thesis by (simp add: parse_loop_break)
    next
      case (Some st1)
      with True "1.prems" have run: "parse_loop argv (i + 1) st1 = (j, st')"
        by (simp add: parse_loop_step)
      show ?thesis
      proof (cases "k = i")
        case True
        with Some "1.prems"(4,5) parse_arg_htpass [of v st] have "users_file_inv st1"
          by (auto simp: users_file_inv_def)
        then show ?thesis
          by (rule parse_loop_invariant [where P = users_file_inv, OF run])
             (rule parse_arg_users_file_inv)
      next
        case False
        with "1.prems" have "i + 1 \<le> k" by simp
        from "1.IH" [OF True Some run this "1.prems"(3,4,5)] show ?thesis .
      qed
    qed
  qed
qed

lemma htpass_loop:
  "parse_loop [''pirexbot'', ''-htpass:users.htdigest'', ''-title:Rex''] 1
     \<lparr>settings = S, viewersGroup = None, configGroup = None\<rparr> =
   (3, \<lparr>settings = S\<lparr>HtDigestFileName := ''users.htdigest'', ViewersGroup := User,
                      ConfigGroup := Admin, BotTitle := ''Rex''\<rparr>,
        viewersGroup = None, configGroup = None\<rparr>)"
  by (simp add: parse_loop.simps arg_defs)

lemma viewer_admin_loop:
  "parse_loop [''pirexbot'', ''-viewer:admin''] 1
     \<lparr>settings = S, viewersGroup = None, configGroup = None\<rparr> =
   (2, \<lparr>settings = S, viewersGroup = Some Admin, configGroup = None\<rparr>)"
  by (simp add: parse_loop.simps arg_defs)

lemma viewer_admin_parse:
  "ParseCommandLine [''pirexbot'', ''-viewer:admin''] example_settings =
     (True, example_settings, [Printf WarnUsersFileNotSpecified])"
  unfolding ParseCommandLine_unfold [OF viewer_admin_loop]
  by (simp add: example_settings_def SetDefaultSettings_def)

lemma stop_loop:
  "parse_loop [''pirexbot'', ''-size:9'', ''-fps:10'', ''bogus''] 1
     \<lparr>settings = S, viewersGroup = None, configGroup = None\<rparr> =
   (1, \<lparr>settings = S, viewersGroup = None, configGroup = None\<rparr>)"
  by (simp add: parse_loop.simps arg_defs)

lemma early_stop_loop:
  "parse_loop [''pirexbot'', ''-fps:10'', ''-size:9'', ''-jpeg:50''] 1
     \<lparr>settings = S, viewersGroup = None, configGroup = None\<rparr> =
   (2, \<lparr>settings = S\<lparr>FrameRate := 10\<rparr>, viewersGroup = None, configGroup = None\<rparr>)"
  by (simp add: parse_loop.simps arg_defs scan_defs)

lemma pirexbot_loop:
  "parse_loop [''pirexbot''] 1 \<lparr>settings = S, viewersGroup = None, configGroup = None\<rparr> =
   (1, \<lparr>settings = S, viewersGroup = None, configGroup = None\<rparr>)"
  by (simp add: parse_loop.simps)

lemma pirexbot_parse: "ParseCommandLine [''pirexbot''] S = (True, S, [])"
  unfolding ParseCommandLine_unfold [OF pirexbot_loop] by simp

subsection \<open>The overrides and the arguments that ask for them\<close>

lemma groups_Anyone_locals:
  assumes "parse_loop argv 1
             \<lparr>settings = SetDefaultSettings b pwd S00, viewersGroup = None, configGroup = None\<rparr> = (i, st)"
    and "ParseCommandLine argv (SetDefaultSettings b pwd S00) = (ret, S, out)"
    and "HtDigestFileName S = []"
  shows "ViewersGroup S = Anyone \<and> ConfigGroup S = Anyone \<and>
         (Printf WarnUsersFileNotSpecified \<in> set out \<longleftrightarrow>
            viewersGroup st \<in> {Some User, Some Admin} \<or> configGroup st \<in> {Some User, Some Admin})"
proof -
  have "no_users_file_inv \<lparr>settings = SetDefaultSettings b pwd S00, viewersGroup = None, configGroup = None\<rparr>"
    by (simp add: no_users_file_inv_def SetDefaultSettings_def)
  then have inv: "no_users_file_inv st"
    by (rule parse_loop_invariant [where P = no_users_file_inv, OF assms(1)])
       (rule parse_arg_no_users_file_inv)
  note un = ParseCommandLine_unfold [OF assms(1)]
  from assms(2) have S: "S = fst (snd (ParseCommandLine argv (SetDefaultSettings b pwd S00)))"
    and out: "out = snd (snd (ParseCommandLine argv (SetDefaultSettings b pwd S00)))"
    by simp_all
  have fname: "HtDigestFileName S = HtDigestFileName (settings st)"
    unfolding S un by (simp add: Let_def split: option.splits)
  with assms(3) inv have an: "ViewersGroup (settings st) = Anyone" "ConfigGroup (settings st) = Anyone"
    and empty: "HtDigestFileName (settings st) = []"
    by (simp_all add: no_users_file_inv_def)
  have v: "ViewersGroup S = Anyone"
    unfolding S un using an empty
    by (cases "viewersGroup st"; cases "configGroup st") (auto simp: Let_def)
  have c: "ConfigGroup S = Anyone"
    unfolding S un using an empty
    by (cases "viewersGroup st"; cases "configGroup st") (auto simp: Let_def)
  have vcases: "\<And>g. g \<noteq> Anyone \<longleftrightarrow> g = User \<or> g = Admin"
    by (case_tac g) auto
  have w: "Printf WarnUsersFileNotSpecified \<in> set out \<longleftrightarrow>
            viewersGroup st \<in> {Some User, Some Admin} \<or> configGroup st \<in> {Some User, Some Admin}"
    unfolding out un using empty vcases
    by (cases "viewersGroup st"; cases "configGroup st") (auto simp: Let_def)
  from v c w show ?thesis by blast
qed

lemma htpass_locals:
  assumes "v \<noteq> []"
    and "parse_loop argv 1 \<lparr>settings = S0, viewersGroup = None, configGroup = None\<rparr> = (i, st)"
    and "1 \<le> k" and "k < i" and "argv ! k = ''-htpass:'' @ v"
  shows "parse_arg (''-htpass:'' @ v) s =
           Some (s\<lparr>settings := (settings s)
                    \<lparr>HtDigestFileName := v, ViewersGroup := User, ConfigGroup := Admin\<rparr>\<rparr>)
       \<and> ViewersGroup (settings st) = User \<and> ConfigGroup (settings st) = Admin
       \<and> ViewersGroup (fst (snd (ParseCommandLine argv S0))) =
           (case viewersGroup st of None \<Rightarrow> User | Some g \<Rightarrow> g)
       \<and> ConfigGroup (fst (snd (ParseCommandLine argv S0))) =
           (case configGroup st of None \<Rightarrow> Admin | Some g \<Rightarrow> g)"
proof -
  from parse_loop_htpass [OF assms(2,3,4,5,1)] have inv: "users_file_inv st" .
  then have "ViewersGroup (fst (snd (ParseCommandLine argv S0))) =
           (case viewersGroup st of None \<Rightarrow> User | Some g \<Rightarrow> g)"
    and "ConfigGroup (fst (snd (ParseCommandLine argv S0))) =
           (case configGroup st of None \<Rightarrow> Admin | Some g \<Rightarrow> g)"
    unfolding ParseCommandLine_unfold [OF assms(2)] users_file_inv_def
    by (simp_all add: Let_def split: option.splits)
  with inv parse_arg_htpass [OF assms(1)] show ?thesis
    by (simp add: users_file_inv_def)
qed

lemma consumed_take:
  assumes "parse_loop argv 1 st = (i, st')"
  shows "consumed argv = take (i - 1) (tl argv)"
proof (cases argv)
  case Nil
  then show ?thesis by (simp add: consumed_def)
next
  case (Cons prog tokens)
  from parse_loop_bounds [OF assms] Cons have i: "1 \<le> i" "i \<le> length argv" by auto
  show ?thesis
    unfolding consumed_def
  proof (rule takeWhile_eq_take_P_nth)
    fix k
    assume "k < i - 1" and "k < length (tl argv)"
    then have "1 \<le> Suc k" "Suc k < i" "tl argv ! k = argv ! Suc k"
      by (auto simp: nth_tl)
    with parse_loop_accepted [OF assms, of "Suc k"] show "\<not> arg_rejected (tl argv ! k)"
      by simp
  next
    assume "i - 1 < length (tl argv)"
    with i have "i < length argv" "tl argv ! (i - 1) = argv ! i"
      by (auto simp: nth_tl)
    with parse_loop_stopped [OF assms] show "\<not> \<not> arg_rejected (tl argv ! (i - 1))"
      by simp
  qed
qed

lemma parse_arg_viewersGroup:
  "parse_arg arg s = Some s' \<Longrightarrow>
   viewersGroup s' =
     (if arg_key arg = ''viewer'' then SupportedUserGroups (arg_value arg) else viewersGroup s)"
  unfolding parse_arg_def Let_def
  by (simp split: if_splits option.splits) auto

lemma parse_arg_configGroup:
  "parse_arg arg s = Some s' \<Longrightarrow>
   configGroup s' =
     (if arg_key arg = ''config'' then SupportedUserGroups (arg_value arg) else configGroup s)"
  unfolding parse_arg_def Let_def
  by (simp split: if_splits option.splits) auto

lemma requested_Cons:
  "requested key (arg # args) =
     (if option_values key args = []
      then (if arg_key arg = key then SupportedUserGroups (arg_value arg) else None)
      else requested key args)"
  by (simp add: requested_def option_values_def)

lemma slice_Cons:
  "i < j \<Longrightarrow> i < length argv \<Longrightarrow>
   take (j - i) (drop i argv) = argv ! i # take (j - (i + 1)) (drop (i + 1) argv)"
proof -
  assume "i < j" and len: "i < length argv"
  then have "j - i = Suc (j - (i + 1))" by simp
  with Cons_nth_drop_Suc [OF len] show ?thesis
    by (metis Suc_eq_plus1 take_Suc_Cons)
qed

lemma parse_loop_viewersGroup:
  "parse_loop argv i st = (j, st') \<Longrightarrow>
   viewersGroup st' =
     (if option_values ''viewer'' (take (j - i) (drop i argv)) = [] then viewersGroup st
      else requested ''viewer'' (take (j - i) (drop i argv)))"
proof (induction argv i st rule: parse_loop.induct)
  case (1 argv i st)
  show ?case
  proof (cases "i < length argv")
    case False
    with "1.prems" show ?thesis by (simp add: parse_loop_end option_values_def)
  next
    case True
    show ?thesis
    proof (cases "parse_arg (argv ! i) st")
      case None
      with True "1.prems" show ?thesis by (simp add: parse_loop_break option_values_def)
    next
      case (Some st1)
      with True "1.prems" have run: "parse_loop argv (i + 1) st1 = (j, st')"
        by (simp add: parse_loop_step)
      from parse_loop_bounds [OF run] have "i < j" by simp
      note slice = slice_Cons [OF this True]
      from "1.IH" [OF True Some run] parse_arg_viewersGroup [OF Some] show ?thesis
        unfolding slice by (simp add: requested_Cons) (simp add: option_values_def)
    qed
  qed
qed

lemma parse_loop_configGroup:
  "parse_loop argv i st = (j, st') \<Longrightarrow>
   configGroup st' =
     (if option_values ''config'' (take (j - i) (drop i argv)) = [] then configGroup st
      else requested ''config'' (take (j - i) (drop i argv)))"
proof (induction argv i st rule: parse_loop.induct)
  case (1 argv i st)
  show ?case
  proof (cases "i < length argv")
    case False
    with "1.prems" show ?thesis by (simp add: parse_loop_end option_values_def)
  next
    case True
    show ?thesis
    proof (cases "parse_arg (argv ! i) st")
      case None
      with True "1.prems" show ?thesis by (simp add: parse_loop_break option_values_def)
    next
      case (Some st1)
      with True "1.prems" have run: "parse_loop argv (i + 1) st1 = (j, st')"
        by (simp add: parse_loop_step)
      from parse_loop_bounds [OF run] have "i < j" by simp
      note slice = slice_Cons [OF this True]
      from "1.IH" [OF True Some run] parse_arg_configGroup [OF Some] show ?thesis
        unfolding slice by (simp add: requested_Cons) (simp add: option_values_def)
    qed
  qed
qed

lemma locals_requested:
  assumes "parse_loop argv 1 \<lparr>settings = S0, viewersGroup = None, configGroup = None\<rparr> = (i, st)"
  shows "viewersGroup st = requested ''viewer'' (consumed argv)"
    and "configGroup st = requested ''config'' (consumed argv)"
proof -
  have slice: "take (i - 1) (drop 1 argv) = consumed argv"
    using consumed_take [OF assms] by (simp add: drop_Suc)
  from parse_loop_viewersGroup [OF assms] show "viewersGroup st = requested ''viewer'' (consumed argv)"
    unfolding slice by (simp add: requested_def)
  from parse_loop_configGroup [OF assms] show "configGroup st = requested ''config'' (consumed argv)"
    unfolding slice by (simp add: requested_def)
qed

lemmas rejected_defs = arg_rejected_def malformed_def unrecognized_def value_refused_def
  known_keys_def arg_key_def arg_value_def

lemmas request_defs = requested_def option_values_def arg_key_def arg_value_def
  SupportedUserGroups_def

lemma config_user_loop:
  "parse_loop [''pirexbot'', ''-config:user''] 1
     \<lparr>settings = S, viewersGroup = None, configGroup = None\<rparr> =
   (2, \<lparr>settings = S, viewersGroup = None, configGroup = Some User\<rparr>)"
  by (simp add: parse_loop.simps arg_defs)

lemma config_user_parse:
  "ParseCommandLine [''pirexbot'', ''-config:user''] example_settings =
     (True, example_settings, [Printf WarnUsersFileNotSpecified])"
  unfolding ParseCommandLine_unfold [OF config_user_loop]
  by (simp add: example_settings_def SetDefaultSettings_def)

lemma viewer_twice_loop:
  "parse_loop [''pirexbot'', ''-viewer:admin'', ''-viewer:any''] 1
     \<lparr>settings = S, viewersGroup = None, configGroup = None\<rparr> =
   (3, \<lparr>settings = S, viewersGroup = Some Anyone, configGroup = None\<rparr>)"
  by (simp add: parse_loop.simps arg_defs)

lemma viewer_twice_parse:
  "ParseCommandLine [''pirexbot'', ''-viewer:admin'', ''-viewer:any''] example_settings =
     (True, example_settings, [])"
  unfolding ParseCommandLine_unfold [OF viewer_twice_loop]
  by (simp add: example_settings_def SetDefaultSettings_def)

lemma consumed_nth:
  assumes "parse_loop argv 1 st = (i, st')" and "x \<in> set (consumed argv)"
  obtains k where "1 \<le> k" and "k < i" and "argv ! k = x"
proof -
  from assms(2) consumed_take [OF assms(1)] have "x \<in> set (take (i - 1) (tl argv))"
    by simp
  then obtain n where n: "n < length (take (i - 1) (tl argv))" "take (i - 1) (tl argv) ! n = x"
    by (auto simp: in_set_conv_nth)
  then have "n < i - 1" "n < length (tl argv)" by auto
  with n have "1 \<le> Suc n" "Suc n < i" "argv ! Suc n = x"
    by (auto simp: nth_tl)
  then show ?thesis by (rule that)
qed

lemma requested_None: "\<forall>arg\<in>set args. arg_key arg \<noteq> key \<Longrightarrow> requested key args = None"
  by (simp add: requested_def option_values_def filter_empty_conv)

lemma override_first_loop:
  "parse_loop [''pirexbot'', ''-viewer:any'', ''-config:any'', ''-htpass:f''] 1
     \<lparr>settings = S, viewersGroup = None, configGroup = None\<rparr> =
   (4, \<lparr>settings = S\<lparr>HtDigestFileName := ''f'', ViewersGroup := User, ConfigGroup := Admin\<rparr>,
        viewersGroup = Some Anyone, configGroup = Some Anyone\<rparr>)"
  by (simp add: parse_loop.simps arg_defs)

subsection \<open>The control loop\<close>

lemma fst_deliver: "fst (deliver n ev) = (ev \<or> is_exit n)"
  by (cases n) (auto simp: sigIntHandler_def OnError_def Signal_def)

lemma fst_deliver_all: "fst (deliver_all ns ev) = (ev \<or> (\<exists>n\<in>set ns. is_exit n))"
  by (induction ns arbitrary: ev) (auto simp: fst_deliver case_prod_beta)

lemma run_loop_append:
  "\<forall>e\<in>set pre. \<not> (\<exists>n\<in>set (arrived e). is_exit n) \<Longrightarrow>
   run_loop b (pre @ rest) False c =
     map_option ((@) (snd (loop_iterations b pre c))) (run_loop b rest False (fst (loop_iterations b pre c)))"
proof (induction pre arbitrary: c)
  case Nil
  show ?case by (simp add: option.map_ident)
next
  case (Cons e pre)
  then have idle: "fst (deliver_all (arrived e) False) = False"
    by (simp add: fst_deliver_all)
  from Cons.prems have "\<forall>e\<in>set pre. \<not> (\<exists>n\<in>set (arrived e). is_exit n)" by simp
  from Cons.IH [OF this] idle show ?case
    by (simp add: Wait_def option.map_comp comp_def)
qed

lemma run_loop_exit:
  "\<exists>n\<in>set (arrived e). is_exit n \<Longrightarrow>
   run_loop b (e # rest) ev c = Some (snd (deliver_all (arrived e) ev))"
  by (simp add: Wait_def fst_deliver_all)

lemma fst_loop_body: "fst (loop_body b e c) = (if c + 1 = 60 then 0 else c + 1)"
  by (simp add: loop_body_def Let_def)

lemma save_in_loop_body: "SaveConfiguration \<in> set (snd (loop_body b e c)) \<longleftrightarrow> c + 1 = 60"
  by (simp add: loop_body_def Let_def split: option.splits)

lemma saveCounter_after:
  "0 \<le> c \<Longrightarrow> c < 60 \<Longrightarrow> fst (loop_iterations b es c) = (c + int (length es)) mod 60"
proof (induction es arbitrary: c)
  case Nil
  then show ?case by simp
next
  case (Cons e es)
  show ?case
  proof (cases "c + 1 = 60")
    case True
    with Cons.IH [of 0] show ?thesis
      by (simp add: fst_loop_body)
  next
    case False
    with Cons.prems Cons.IH [of "c + 1"] show ?thesis
      by (simp add: fst_loop_body ac_simps)
  qed
qed

lemma le_div_int: "0 < b \<Longrightarrow> (k \<le> d div b) = (k * b \<le> (d::int))"
proof
  assume b: "0 < b" and k: "k \<le> d div b"
  from b k have "k * b \<le> d div b * b" by (simp add: mult_right_mono)
  also have "d div b * b = d - d mod b" by (simp add: minus_mod_eq_div_mult)
  also from b have "\<dots> \<le> d" by simp
  finally show "k * b \<le> d" .
next
  assume b: "0 < b" and k: "k * b \<le> d"
  from zdiv_mono1 [OF k b] b show "k \<le> d div b" by simp
qed

lemma milliseconds_ge: "(1000 \<le> duration_cast_milliseconds d) = (1000000000 \<le> d)"
proof (cases "d < 0")
  case True
  moreover from True have "0 \<le> (- d) div 1000000" by simp
  ultimately show ?thesis by (simp add: duration_cast_milliseconds_def)
next
  case False
  with le_div_int [of 1000000 1000 d] show ?thesis
    by (simp add: duration_cast_milliseconds_def)
qed

lemma milliseconds_less: "(duration_cast_milliseconds d < 2000) = (d < 2000000000)"
proof (cases "d < 0")
  case True
  moreover from True have "0 \<le> (- d) div 1000000" by simp
  ultimately show ?thesis by (simp add: duration_cast_milliseconds_def)
next
  case False
  with le_div_int [of 1000000 2000 d] show ?thesis
    by (simp add: duration_cast_milliseconds_def not_le [symmetric])
qed

lemma loop_body_arrived: "loop_body b (e\<lparr>arrived := ns\<rparr>) c = loop_body b e c"
  by (simp add: loop_body_def Let_def split: option.splits)

lemma main_parse_failure:
  "\<not> fst (ParseCommandLine argv (SetDefaultSettings b pwd Settings_static)) \<Longrightarrow>
   main b pwd argv started env =
     Some (- 1, snd (snd (ParseCommandLine argv (SetDefaultSettings b pwd Settings_static))))"
  by (simp add: main_def case_prod_beta)

lemma count_deliver: "count_list (snd (deliver n ev)) SaveConfiguration = 0"
  by (cases n) (simp_all add: OnError_def)

lemma count_deliver_all: "count_list (snd (deliver_all ns ev)) SaveConfiguration = 0"
  by (induction ns arbitrary: ev) (simp_all add: case_prod_beta count_deliver)

lemma count_BotShutDown: "count_list (BotShutDown b) SaveConfiguration = 0"
  by (simp add: BotShutDown_def split: option.splits)

subsection \<open>The claims\<close>

text \<open>
  C1 (exit codes). The claim has main return a non-zero value when the web server
  fails to start. Started with no option and with \<open>server.Start ( )\<close> returning
  false, main makes its set-up calls, prints that starting the web server failed,
  runs \<open>BotShutDown\<close> and returns 0, whatever the build, the home directory and the
  environment.
\<close>

theorem main_returns_0_when_server_fails:
  "main b pwd [''pirexbot''] False env =
     Some (0, main_setup b (SetDefaultSettings b pwd Settings_static)
              @ [Printf FailedStartingWebServer] @ BotShutDown b)"
  by (simp add: main_def pirexbot_parse)

text \<open>
  C2 (no credentials file). Parsing starts from the default settings. When the name
  of the users file is empty afterwards, both groups are \<open>Anyone\<close>, whatever
  \<open>-viewer\<close> and \<open>-config\<close> asked for, and the warning is printed exactly when
  the group requested for either of the two options, the one its last consumed
  argument names, is \<open>User\<close> or \<open>Admin\<close>.
\<close>

theorem no_users_file_groups_Anyone:
  assumes "ParseCommandLine argv (SetDefaultSettings b pwd S00) = (ret, S, out)"
    and "HtDigestFileName S = []"
  shows "ViewersGroup S = Anyone \<and> ConfigGroup S = Anyone \<and>
         (Printf WarnUsersFileNotSpecified \<in> set out \<longleftrightarrow>
            requested ''viewer'' (consumed argv) \<in> {Some User, Some Admin} \<or>
            requested ''config'' (consumed argv) \<in> {Some User, Some Admin})"
proof -
  obtain i st where run: "parse_loop argv 1
      \<lparr>settings = SetDefaultSettings b pwd S00, viewersGroup = None, configGroup = None\<rparr> = (i, st)"
    by (cases "parse_loop argv 1
      \<lparr>settings = SetDefaultSettings b pwd S00, viewersGroup = None, configGroup = None\<rparr>") blast
  from groups_Anyone_locals [OF run assms] locals_requested [OF run]
  show ?thesis by simp
qed

text \<open>
  The scenario of the claim, \<open>-viewer:admin\<close> and no \<open>-htpass\<close>; the same with
  \<open>-config:user\<close>; and \<open>-viewer:admin -viewer:any\<close>, where the group requested
  in the end is \<open>Anyone\<close> and nothing is printed.
\<close>

theorem no_users_file_groups_Anyone_witness:
  "HtDigestFileName example_settings = []
   \<and> ViewersGroup example_settings = Anyone \<and> ConfigGroup example_settings = Anyone
   \<and> ParseCommandLine [''pirexbot'', ''-viewer:admin'']
       (SetDefaultSettings example_build (Some ''/home/pi'') Settings_static) =
     (True, example_settings, [Printf WarnUsersFileNotSpecified])
   \<and> requested ''viewer'' (consumed [''pirexbot'', ''-viewer:admin'']) = Some Admin
   \<and> ParseCommandLine [''pirexbot'', ''-config:user'']
       (SetDefaultSettings example_build (Some ''/home/pi'') Settings_static) =
     (True, example_settings, [Printf WarnUsersFileNotSpecified])
   \<and> requested ''config'' (consumed [''pirexbot'', ''-config:user'']) = Some User
   \<and> ParseCommandLine [''pirexbot'', ''-viewer:admin'', ''-viewer:any'']
       (SetDefaultSettings example_build (Some ''/home/pi'') Settings_static) =
     (True, example_settings, [])
   \<and> requested ''viewer'' (consumed [''pirexbot'', ''-viewer:admin'', ''-viewer:any'']) = Some Anyone
   \<and> requested ''config'' (consumed [''pirexbot'', ''-viewer:admin'', ''-viewer:any'']) = None"
proof -
  have h: "HtDigestFileName example_settings = []"
    by (simp add: example_settings_def SetDefaultSettings_def)
  have p1: "ParseCommandLine [''pirexbot'', ''-viewer:admin'']
       (SetDefaultSettings example_build (Some ''/home/pi'') Settings_static) =
     (True, example_settings, [Printf WarnUsersFileNotSpecified])"
    using viewer_admin_parse by (simp add: example_settings_def)
  have p2: "ParseCommandLine [''pirexbot'', ''-config:user'']
       (SetDefaultSettings example_build (Some ''/home/pi'') Settings_static) =
     (True, example_settings, [Printf WarnUsersFileNotSpecified])"
    using config_user_parse by (simp add: example_settings_def)
  have p3: "ParseCommandLine [''pirexbot'', ''-viewer:admin'', ''-viewer:any'']
       (SetDefaultSettings example_build (Some ''/home/pi'') Settings_static) =
     (True, example_settings, [])"
    using viewer_twice_parse by (simp add: example_settings_def)
  have r: "requested ''viewer'' (consumed [''pirexbot'', ''-viewer:admin'']) = Some Admin"
    "requested ''config'' (consumed [''pirexbot'', ''-config:user'']) = Some User"
    "requested ''viewer'' (consumed [''pirexbot'', ''-viewer:admin'', ''-viewer:any'']) = Some Anyone"
    "requested ''config'' (consumed [''pirexbot'', ''-viewer:admin'', ''-viewer:any'']) = None"
    by (simp_all add: consumed_def rejected_defs request_defs)
  from no_users_file_groups_Anyone [OF p1 h] no_users_file_groups_Anyone [OF p2 h]
    no_users_file_groups_Anyone [OF p3 h] h p1 p2 p3 r
  show ?thesis by simp
qed

text \<open>
  C3 (numeric options). Whatever number \<open>r\<close> the scan of the value gives: a frame
  rate below 1 or above 30 becomes 30, a JPEG quality below 1 becomes 1 and one above
  100 becomes 100, a port above 65535 becomes 65535, and any other number is kept. So
  after parsing from the defaults the three settings are within their ranges. The
  arguments \<open>-port:9090 -fps:45 -jpeg:150\<close> are all consumed and give port 9090,
  frame rate 30 and quality 100.
\<close>

theorem numeric_options_clamped:
  "(sscanf_u v = Some r \<longrightarrow>
      parse_arg (''-fps:'' @ v) st =
        Some (st\<lparr>settings := (settings st)\<lparr>FrameRate := (if r < 1 \<or> 30 < r then 30 else r)\<rparr>\<rparr>))
   \<and> (sscanf_u v = Some r \<longrightarrow>
      parse_arg (''-jpeg:'' @ v) st =
        Some (st\<lparr>settings := (settings st)
                \<lparr>JpegQuality := (if r < 1 then 1 else if 100 < r then 100 else r)\<rparr>\<rparr>))
   \<and> (sscanf_u v = Some r \<longrightarrow>
      parse_arg (''-port:'' @ v) st =
        Some (st\<lparr>settings := (settings st)\<lparr>WebPort := (if 65535 < r then 65535 else r)\<rparr>\<rparr>))
   \<and> 1 \<le> FrameRate (fst (snd (ParseCommandLine argv (SetDefaultSettings b pwd S00))))
   \<and> FrameRate (fst (snd (ParseCommandLine argv (SetDefaultSettings b pwd S00)))) \<le> 30
   \<and> 1 \<le> JpegQuality (fst (snd (ParseCommandLine argv (SetDefaultSettings b pwd S00))))
   \<and> JpegQuality (fst (snd (ParseCommandLine argv (SetDefaultSettings b pwd S00)))) \<le> 100
   \<and> WebPort (fst (snd (ParseCommandLine argv (SetDefaultSettings b pwd S00)))) \<le> 65535
   \<and> ParseCommandLine [''pirexbot'', ''-port:9090'', ''-fps:45'', ''-jpeg:150'']
         (SetDefaultSettings b pwd S00) =
       (True, (SetDefaultSettings b pwd S00)\<lparr>WebPort := 9090, FrameRate := 30, JpegQuality := 100\<rparr>, [])"
proof -
  let ?S0 = "SetDefaultSettings b pwd S00"
  let ?init = "\<lparr>settings = ?S0, viewersGroup = None, configGroup = None\<rparr>"
  obtain i st where run: "parse_loop argv 1 ?init = (i, st)"
    by (cases "parse_loop argv 1 ?init") blast
  have "in_ranges ?init"
    by (simp add: in_ranges_def SetDefaultSettings_def)
  then have "in_ranges st"
    by (rule parse_loop_invariant [where P = in_ranges, OF run]) (rule parse_arg_in_ranges)
  then have ranges:
    "1 \<le> FrameRate (fst (snd (ParseCommandLine argv ?S0)))"
    "FrameRate (fst (snd (ParseCommandLine argv ?S0))) \<le> 30"
    "1 \<le> JpegQuality (fst (snd (ParseCommandLine argv ?S0)))"
    "JpegQuality (fst (snd (ParseCommandLine argv ?S0))) \<le> 100"
    "WebPort (fst (snd (ParseCommandLine argv ?S0))) \<le> 65535"
    unfolding ParseCommandLine_unfold [OF run] in_ranges_def
    by (simp_all add: Let_def split: option.splits)
  have scenario: "ParseCommandLine [''pirexbot'', ''-port:9090'', ''-fps:45'', ''-jpeg:150''] ?S0 =
       (True, ?S0\<lparr>WebPort := 9090, FrameRate := 30, JpegQuality := 100\<rparr>, [])"
    unfolding ParseCommandLine_unfold [OF scenario_loop]
    by (simp add: SetDefaultSettings_def)
  from parse_arg_fps parse_arg_jpeg parse_arg_port ranges scenario show ?thesis
    by blast
qed

text \<open>Three values that scan and lie above their ranges.\<close>

theorem numeric_options_clamped_witness:
  "sscanf_u ''45'' = Some 45 \<and> sscanf_u ''150'' = Some 150 \<and> sscanf_u ''70000'' = Some 70000
   \<and> parse_arg ''-fps:45''
        \<lparr>settings = example_settings, viewersGroup = None, configGroup = None\<rparr> =
      Some \<lparr>settings = example_settings\<lparr>FrameRate := 30\<rparr>, viewersGroup = None, configGroup = None\<rparr>
   \<and> parse_arg ''-jpeg:150''
        \<lparr>settings = example_settings, viewersGroup = None, configGroup = None\<rparr> =
      Some \<lparr>settings = example_settings\<lparr>JpegQuality := 100\<rparr>, viewersGroup = None, configGroup = None\<rparr>
   \<and> parse_arg ''-port:70000''
        \<lparr>settings = example_settings, viewersGroup = None, configGroup = None\<rparr> =
      Some \<lparr>settings = example_settings\<lparr>WebPort := 65535\<rparr>, viewersGroup = None, configGroup = None\<rparr>"
proof -
  have s1: "sscanf_u ''45'' = Some 45" by (simp add: scan_defs)
  have s2: "sscanf_u ''150'' = Some 150" by (simp add: scan_defs)
  have s3: "sscanf_u ''70000'' = Some 70000" by (simp add: scan_defs)
  show ?thesis
    using s1 s2 s3
      numeric_options_clamped [of "''45''" 45
        "\<lparr>settings = example_settings, viewersGroup = None, configGroup = None\<rparr>"]
      numeric_options_clamped [of "''150''" 150
        "\<lparr>settings = example_settings, viewersGroup = None, configGroup = None\<rparr>"]
      numeric_options_clamped [of "''70000''" 70000
        "\<lparr>settings = example_settings, viewersGroup = None, configGroup = None\<rparr>"]
    by simp
qed

text \<open>
  C4 as stated (the loop stops at the first argument that is malformed or has an
  unrecognized key, and what comes before that point is applied) fails for
  \<open>-size:9 -fps:10 bogus\<close>. The first such argument is \<open>bogus\<close>, the third; the
  loop stops at \<open>-size:9\<close>, the first, which is well-formed and has a known key, and
  \<open>-fps:10\<close>, which alone would set the frame rate to 10, is never reached: the frame
  rate stays 30.
\<close>

theorem stops_before_first_malformed_counterexample:
  "fst (parse_loop [''pirexbot'', ''-size:9'', ''-fps:10'', ''bogus''] 1
          \<lparr>settings = example_settings, viewersGroup = None, configGroup = None\<rparr>) = 1
   \<and> \<not> malformed ''-size:9'' \<and> \<not> unrecognized ''-size:9''
   \<and> \<not> malformed ''-fps:10'' \<and> \<not> unrecognized ''-fps:10''
   \<and> malformed ''bogus''
   \<and> parse_arg ''-fps:10'' \<lparr>settings = example_settings, viewersGroup = None, configGroup = None\<rparr>
       = Some \<lparr>settings = example_settings\<lparr>FrameRate := 10\<rparr>, viewersGroup = None, configGroup = None\<rparr>
   \<and> ParseCommandLine [''pirexbot'', ''-size:9'', ''-fps:10'', ''bogus''] example_settings =
       (False, example_settings, [Printf UsageHelp])
   \<and> FrameRate example_settings = 30"
proof -
  have "ParseCommandLine [''pirexbot'', ''-size:9'', ''-fps:10'', ''bogus''] example_settings =
       (False, example_settings, [Printf UsageHelp])"
    unfolding ParseCommandLine_unfold [OF stop_loop]
    by (simp add: example_settings_def SetDefaultSettings_def)
  moreover have "parse_arg ''-fps:10'' \<lparr>settings = example_settings, viewersGroup = None, configGroup = None\<rparr>
       = Some \<lparr>settings = example_settings\<lparr>FrameRate := 10\<rparr>, viewersGroup = None, configGroup = None\<rparr>"
    by (simp add: arg_defs scan_defs)
  moreover have "FrameRate example_settings = 30"
    by (simp add: example_settings_def SetDefaultSettings_def)
  moreover have "\<not> malformed ''-size:9''" "\<not> unrecognized ''-size:9''"
    "\<not> malformed ''-fps:10''" "\<not> unrecognized ''-fps:10''" "malformed ''bogus''"
    by (simp_all add: malformed_def unrecognized_def known_keys_def arg_key_def arg_value_def)
  moreover have "fst (parse_loop [''pirexbot'', ''-size:9'', ''-fps:10'', ''bogus''] 1
          \<lparr>settings = example_settings, viewersGroup = None, configGroup = None\<rparr>) = 1"
    by (simp only: stop_loop fst_conv)
  ultimately show ?thesis
    by blast
qed

text \<open>
  C4 as amended. On the arguments that follow the name of the program, the loop stops
  at the first one that is malformed, has an unrecognized key, or has a value its option
  refuses: every argument before index \<open>i\<close> is none of these, and the one at
  \<open>i\<close>, when there is one, is. The settings returned are those of parsing the consumed arguments alone,
  which succeeds; the return value is true exactly when every argument was consumed,
  and otherwise the help is the last thing printed before false is returned.
\<close>

theorem ParseCommandLine_stops_at_first_rejected:
  assumes "argv = prog # tokens"
    and "parse_loop argv 1 \<lparr>settings = S0, viewersGroup = None, configGroup = None\<rparr> = (i, st)"
  shows "1 \<le> i \<and> i \<le> length argv
    \<and> (\<forall>k. 1 \<le> k \<and> k < i \<longrightarrow> \<not> arg_rejected (argv ! k))
    \<and> (i < length argv \<longrightarrow> arg_rejected (argv ! i))
    \<and> fst (ParseCommandLine (take i argv) S0)
    \<and> ParseCommandLine argv S0 =
        (i = length argv,
         fst (snd (ParseCommandLine (take i argv) S0)),
         snd (snd (ParseCommandLine (take i argv) S0))
           @ (if i = length argv then [] else [Printf UsageHelp]))"
proof -
  from assms(1) have len: "1 \<le> length argv" by simp
  from parse_loop_bounds [OF assms(2)] len have "1 \<le> i" "i \<le> length argv" by auto
  moreover have "\<forall>k. 1 \<le> k \<and> k < i \<longrightarrow> \<not> arg_rejected (argv ! k)"
    using parse_loop_accepted [OF assms(2)] by blast
  moreover have "i < length argv \<longrightarrow> arg_rejected (argv ! i)"
    using parse_loop_stopped [OF assms(2)] by blast
  moreover have "fst (ParseCommandLine (take i argv) S0)"
    using ParseCommandLine_loop(4) [OF assms(2) len] .
  moreover have "ParseCommandLine argv S0 =
        (i = length argv,
         fst (snd (ParseCommandLine (take i argv) S0)),
         snd (snd (ParseCommandLine (take i argv) S0))
           @ (if i = length argv then [] else [Printf UsageHelp]))"
    using ParseCommandLine_loop(1,2) [OF assms(2)] ParseCommandLine_loop(3) [OF assms(2) len]
    by (simp add: prod_eq_iff)
  ultimately show ?thesis by blast
qed

text \<open>One argument applied, then a size that is refused, then one never reached.\<close>

theorem ParseCommandLine_stops_at_first_rejected_witness:
  "[''pirexbot'', ''-fps:10'', ''-size:9'', ''-jpeg:50''] =
     ''pirexbot'' # [''-fps:10'', ''-size:9'', ''-jpeg:50'']
   \<and> parse_loop [''pirexbot'', ''-fps:10'', ''-size:9'', ''-jpeg:50''] 1
       \<lparr>settings = example_settings, viewersGroup = None, configGroup = None\<rparr> =
     (2, \<lparr>settings = example_settings\<lparr>FrameRate := 10\<rparr>, viewersGroup = None, configGroup = None\<rparr>)
   \<and> \<not> arg_rejected ''-fps:10'' \<and> arg_rejected ''-size:9''
   \<and> ParseCommandLine [''pirexbot'', ''-fps:10''] example_settings =
       (True, example_settings\<lparr>FrameRate := 10\<rparr>, [])
   \<and> ParseCommandLine [''pirexbot'', ''-fps:10'', ''-size:9'', ''-jpeg:50''] example_settings =
       (False, example_settings\<lparr>FrameRate := 10\<rparr>, [Printf UsageHelp])"
proof -
  have h1: "[''pirexbot'', ''-fps:10'', ''-size:9'', ''-jpeg:50''] =
     ''pirexbot'' # [''-fps:10'', ''-size:9'', ''-jpeg:50'']" by simp
  have h2: "parse_loop [''pirexbot'', ''-fps:10'', ''-size:9'', ''-jpeg:50''] 1
       \<lparr>settings = example_settings, viewersGroup = None, configGroup = None\<rparr> =
     (2, \<lparr>settings = example_settings\<lparr>FrameRate := 10\<rparr>, viewersGroup = None, configGroup = None\<rparr>)"
    by (rule early_stop_loop)
  have pre: "parse_loop [''pirexbot'', ''-fps:10''] 1
       \<lparr>settings = example_settings, viewersGroup = None, configGroup = None\<rparr> =
     (2, \<lparr>settings = example_settings\<lparr>FrameRate := 10\<rparr>, viewersGroup = None, configGroup = None\<rparr>)"
    by (simp add: parse_loop.simps arg_defs scan_defs)
  have p: "ParseCommandLine [''pirexbot'', ''-fps:10''] example_settings =
       (True, example_settings\<lparr>FrameRate := 10\<rparr>, [])"
    unfolding ParseCommandLine_unfold [OF pre]
    by (simp add: example_settings_def SetDefaultSettings_def)
  note t = ParseCommandLine_stops_at_first_rejected [OF h1 h2]
  from t have "\<forall>k. 1 \<le> k \<and> k < 2 \<longrightarrow>
      \<not> arg_rejected ([''pirexbot'', ''-fps:10'', ''-size:9'', ''-jpeg:50''] ! k)"
    by blast
  from this [rule_format, of 1] have a: "\<not> arg_rejected ''-fps:10''"
    by simp
  from t
  have "arg_rejected ([''pirexbot'', ''-fps:10'', ''-size:9'', ''-jpeg:50''] ! 2)"
    and "ParseCommandLine [''pirexbot'', ''-fps:10'', ''-size:9'', ''-jpeg:50''] example_settings =
       (False, fst (snd (ParseCommandLine [''pirexbot'', ''-fps:10''] example_settings)),
        snd (snd (ParseCommandLine [''pirexbot'', ''-fps:10''] example_settings)) @ [Printf UsageHelp])"
    by simp_all
  with a h1 h2 p show ?thesis by simp
qed

text \<open>
  C5 (watchdog). In every pass of the loop body \<open>motorsController->Stop ( )\<close> is
  called exactly when the time since the last access to \<open>/motors/config\<close>, cast to
  milliseconds, is at least 1000; that is, when at least 1000 ms of clock ticks have
  passed.
\<close>

theorem watchdog_stops_motors:
  "(MotorsStop \<in> set (snd (loop_body b e saveCounter))
      \<longleftrightarrow> 1000 \<le> duration_cast_milliseconds (now_motors e - lastMotorsAccess e))
   \<and> (MotorsStop \<in> set (snd (loop_body b e saveCounter))
      \<longleftrightarrow> 1000 * 1000000 \<le> now_motors e - lastMotorsAccess e)"
proof -
  have "MotorsStop \<in> set (snd (loop_body b e saveCounter))
      \<longleftrightarrow> 1000 \<le> duration_cast_milliseconds (now_motors e - lastMotorsAccess e)"
    by (simp add: loop_body_def Let_def split: option.splits)
  then show ?thesis by (simp add: milliseconds_ge)
qed

text \<open>Last access 1500 ms ago: the motors are stopped. 500 ms ago: they are not.\<close>

theorem watchdog_stops_motors_witness:
  "MotorsStop \<in> set (snd (loop_body example_build
      \<lparr>arrived = [], now_motors = 5000000000, lastMotorsAccess = 5000000000 - 1500 * 1000000,
        now_led = 5000000000, lastAccess = 5000000000\<rparr> 0))
   \<and> MotorsStop \<notin> set (snd (loop_body example_build
      \<lparr>arrived = [], now_motors = 5000000000, lastMotorsAccess = 5000000000 - 500 * 1000000,
        now_led = 5000000000, lastAccess = 5000000000\<rparr> 0))"
  using watchdog_stops_motors [of example_build
      "\<lparr>arrived = [], now_motors = 5000000000, lastMotorsAccess = 5000000000 - 1500 * 1000000,
        now_led = 5000000000, lastAccess = 5000000000\<rparr>" 0]
    watchdog_stops_motors [of example_build
      "\<lparr>arrived = [], now_motors = 5000000000, lastMotorsAccess = 5000000000 - 500 * 1000000,
        now_led = 5000000000, lastAccess = 5000000000\<rparr>" 0]
  by (simp add: duration_cast_milliseconds_def)

text \<open>
  C6 (periodic save). Starting from a counter of 0, after \<open>n\<close> passes of the loop
  body the counter is \<open>n mod 60\<close>, and the next pass, number \<open>n + 1\<close>, saves the
  configuration exactly when \<open>n + 1\<close> is a multiple of 60.
\<close>

theorem save_on_every_60th_tick:
  "fst (loop_iterations b es 0) = int (length es mod 60)
   \<and> (SaveConfiguration \<in> set (snd (loop_body b e (fst (loop_iterations b es 0))))
        \<longleftrightarrow> Suc (length es) mod 60 = 0)"
proof -
  have c: "fst (loop_iterations b es 0) = int (length es mod 60)"
    using saveCounter_after [of 0 b es] by (simp add: zmod_int)
  have "(int (length es mod 60) + 1 = 60) = (Suc (length es) mod 60 = 0)"
    by presburger
  with c show ?thesis
    by (simp add: save_in_loop_body)
qed

text \<open>Ticks 59, 60, 61 and 120 after a start from 0.\<close>

theorem save_on_every_60th_tick_witness:
  "fst (loop_iterations example_build (replicate 59 idle_tick) 0) = 59
   \<and> SaveConfiguration \<notin> set (snd (loop_body example_build idle_tick
         (fst (loop_iterations example_build (replicate 58 idle_tick) 0))))
   \<and> SaveConfiguration \<in> set (snd (loop_body example_build idle_tick
         (fst (loop_iterations example_build (replicate 59 idle_tick) 0))))
   \<and> fst (loop_iterations example_build (replicate 60 idle_tick) 0) = 0
   \<and> SaveConfiguration \<notin> set (snd (loop_body example_build idle_tick
         (fst (loop_iterations example_build (replicate 60 idle_tick) 0))))
   \<and> SaveConfiguration \<in> set (snd (loop_body example_build idle_tick
         (fst (loop_iterations example_build (replicate 119 idle_tick) 0))))"
proof -
  note t58 = save_on_every_60th_tick [of example_build "replicate 58 idle_tick" idle_tick]
  note t59 = save_on_every_60th_tick [of example_build "replicate 59 idle_tick" idle_tick]
  note t60 = save_on_every_60th_tick [of example_build "replicate 60 idle_tick" idle_tick]
  note t119 = save_on_every_60th_tick [of example_build "replicate 119 idle_tick" idle_tick]
  have counters: "fst (loop_iterations example_build (replicate 59 idle_tick) 0) = 59"
    "fst (loop_iterations example_build (replicate 60 idle_tick) 0) = 0"
    using t59 [THEN conjunct1] t60 [THEN conjunct1] by simp_all
  have saves: "SaveConfiguration \<notin> set (snd (loop_body example_build idle_tick
         (fst (loop_iterations example_build (replicate 58 idle_tick) 0))))"
    "SaveConfiguration \<in> set (snd (loop_body example_build idle_tick
         (fst (loop_iterations example_build (replicate 59 idle_tick) 0))))"
    "SaveConfiguration \<notin> set (snd (loop_body example_build idle_tick
         (fst (loop_iterations example_build (replicate 60 idle_tick) 0))))"
    "SaveConfiguration \<in> set (snd (loop_body example_build idle_tick
         (fst (loop_iterations example_build (replicate 119 idle_tick) 0))))"
    using t58 [THEN conjunct2] t59 [THEN conjunct2] t60 [THEN conjunct2] t119 [THEN conjunct2]
    by simp_all
  from counters saves show ?thesis by blast
qed

text \<open>
  C7 (shutdown). The arguments parse, the server starts, the wait times out in the
  iterations \<open>pre\<close> and the exit event is set at the next wait. Then main returns 0,
  and after the calls of those iterations it only prints what the last notifications
  print, and then: stops the distance measurements where they are compiled in, saves
  the configuration, signals the camera to stop, waits for it, stops the server,
  prints and runs \<open>BotShutDown\<close>. From the last wait on the configuration is saved
  exactly once.
\<close>

theorem shutdown_after_exit_signal:
  assumes "fst (ParseCommandLine argv (SetDefaultSettings b pwd Settings_static))"
    and "\<forall>e\<in>set pre. \<not> (\<exists>n\<in>set (arrived e). is_exit n)"
    and "\<exists>n\<in>set (arrived e). is_exit n"
  shows "main b pwd argv True (pre @ e # rest) =
      Some (0, snd (snd (ParseCommandLine argv (SetDefaultSettings b pwd Settings_static)))
               @ main_setup b (fst (snd (ParseCommandLine argv (SetDefaultSettings b pwd Settings_static))))
               @ [Printf WebServerStarted, Printf CtrlCToStop, CameraStart]
               @ (if BOT_DISTANCE_ENABLE_MEASUREMENTS b then [StartMeasurements] else [])
               @ snd (loop_iterations b pre 0)
               @ snd (deliver_all (arrived e) False)
               @ (if BOT_DISTANCE_ENABLE_MEASUREMENTS b then [StopMeasurements] else [])
               @ [SaveConfiguration, SignalToStop, WaitForStop, ServerStop, Printf Done]
               @ BotShutDown b)
     \<and> count_list (snd (deliver_all (arrived e) False)
               @ (if BOT_DISTANCE_ENABLE_MEASUREMENTS b then [StopMeasurements] else [])
               @ [SaveConfiguration, SignalToStop, WaitForStop, ServerStop, Printf Done]
               @ BotShutDown b) SaveConfiguration = 1"
proof -
  from run_loop_append [OF assms(2), of b "e # rest" 0] run_loop_exit [OF assms(3)]
  have "run_loop b (pre @ e # rest) False 0 =
          Some (snd (loop_iterations b pre 0) @ snd (deliver_all (arrived e) False))"
    by simp
  with assms(1) have "main b pwd argv True (pre @ e # rest) =
      Some (0, snd (snd (ParseCommandLine argv (SetDefaultSettings b pwd Settings_static)))
               @ main_setup b (fst (snd (ParseCommandLine argv (SetDefaultSettings b pwd Settings_static))))
               @ [Printf WebServerStarted, Printf CtrlCToStop, CameraStart]
               @ (if BOT_DISTANCE_ENABLE_MEASUREMENTS b then [StartMeasurements] else [])
               @ snd (loop_iterations b pre 0)
               @ snd (deliver_all (arrived e) False)
               @ (if BOT_DISTANCE_ENABLE_MEASUREMENTS b then [StopMeasurements] else [])
               @ [SaveConfiguration, SignalToStop, WaitForStop, ServerStop, Printf Done]
               @ BotShutDown b)"
    by (simp add: main_def case_prod_beta main_shutdown_def)
  then show ?thesis
    by (simp add: count_deliver_all count_BotShutDown)
qed

text \<open>
  A debug build with the distance sensor and no LED, started with no option: one
  iteration 1500 ms after the last access to the motors, then SIGINT.
\<close>

theorem shutdown_after_exit_signal_witness:
  "fst (ParseCommandLine [''pirexbot'']
          (SetDefaultSettings debug_build (Some ''/home/pi'') Settings_static))
   \<and> \<not> (\<exists>n\<in>set (arrived idle_tick). is_exit n)
   \<and> (\<exists>n\<in>set (arrived (idle_tick\<lparr>arrived := [OsSignal 2]\<rparr>)). is_exit n)
   \<and> main debug_build (Some ''/home/pi'') [''pirexbot''] True
        ([idle_tick] @ idle_tick\<lparr>arrived := [OsSignal 2]\<rparr> # []) =
      Some (0,
        [ WiringPiSetupPhys, Sigaction, Sigaction, Sigaction, Sigaction, Sigaction,
          ServerCreate 8000, SetAuthDomain ''pirexbot'',
          SetVideoSize 640 480, SetFrameRate 30, SetJpegQuality 10, LoadConfiguration,
          AddHandler ''/version'' None,
          AddHandler ''/camera/config'' (Some Anyone),
          AddHandler ''/motors/config'' (Some Anyone),
          AddHandler ''/camera/properties'' (Some Anyone),
          AddHandler ''/camera/info'' (Some Anyone),
          AddHandler ''/info'' (Some Anyone),
          AddHandler ''/camera/jpeg'' (Some Anyone),
          AddHandler ''/camera/mjpeg'' (Some Anyone),
          AddHandler ''/distance'' (Some Anyone),
          SetDocumentRoot ''./web'', SetListener, ServerStart,
          Printf WebServerStarted, Printf CtrlCToStop, CameraStart, StartMeasurements,
          MotorsStop,
          StopMeasurements, SaveConfiguration, SignalToStop, WaitForStop, ServerStop,
          Printf Done ])"
proof -
  have h1: "fst (ParseCommandLine [''pirexbot'']
          (SetDefaultSettings debug_build (Some ''/home/pi'') Settings_static))"
    by (simp add: pirexbot_parse)
  have h2: "\<forall>e\<in>set [idle_tick]. \<not> (\<exists>n\<in>set (arrived e). is_exit n)"
    by (simp add: idle_tick_def)
  have h3: "\<exists>n\<in>set (arrived (idle_tick\<lparr>arrived := [OsSignal 2]\<rparr>)). is_exit n"
    by simp
  from shutdown_after_exit_signal [OF h1 h2 h3, of "[]"] h1 h2 h3 show ?thesis
    by (simp add: pirexbot_parse main_setup_def BotInit_def BotShutDown_def debug_build_def
        SetDefaultSettings_def Settings_static_def idle_tick_def loop_body_def
        duration_cast_milliseconds_def sigIntHandler_def Let_def)
qed

text \<open>
  C8 (activity LED). Where the pin of the activity LED is defined, a pass of the loop
  body writes to that pin only, and writes high exactly when the time since the last
  access, cast to milliseconds, is below 2000; that is, when fewer than 2000 ms of
  clock ticks have passed.
\<close>

theorem activity_led_on_below_2000ms:
  assumes "BOT_PIN_CONNECTION_ACTIVE_LED b = Some pin"
  shows "(DigitalWrite p on \<in> set (snd (loop_body b e saveCounter))
           \<longleftrightarrow> p = pin \<and> on = (duration_cast_milliseconds (now_led e - lastAccess e) < 2000))
       \<and> (duration_cast_milliseconds (now_led e - lastAccess e) < 2000
           \<longleftrightarrow> now_led e - lastAccess e < 2000 * 1000000)"
  using assms by (auto simp: loop_body_def Let_def milliseconds_less)

text \<open>1999 ms since the last access: the LED is on. 2000 ms: it is off.\<close>

theorem activity_led_on_below_2000ms_witness:
  "BOT_PIN_CONNECTION_ACTIVE_LED example_build = Some 13
   \<and> DigitalWrite 13 True \<in> set (snd (loop_body example_build
      \<lparr>arrived = [], now_motors = 5000000000, lastMotorsAccess = 5000000000,
        now_led = 5000000000, lastAccess = 5000000000 - 1999 * 1000000\<rparr> 0))
   \<and> DigitalWrite 13 False \<in> set (snd (loop_body example_build
      \<lparr>arrived = [], now_motors = 5000000000, lastMotorsAccess = 5000000000,
        now_led = 5000000000, lastAccess = 5000000000 - 2000 * 1000000\<rparr> 0))
   \<and> DigitalWrite 13 True \<notin> set (snd (loop_body example_build
      \<lparr>arrived = [], now_motors = 5000000000, lastMotorsAccess = 5000000000,
        now_led = 5000000000, lastAccess = 5000000000 - 2000 * 1000000\<rparr> 0))"
proof -
  have h: "BOT_PIN_CONNECTION_ACTIVE_LED example_build = Some 13"
    by (simp add: example_build_def)
  note on = activity_led_on_below_2000ms [OF h, of _ _
      "\<lparr>arrived = [], now_motors = 5000000000, lastMotorsAccess = 5000000000,
        now_led = 5000000000, lastAccess = 5000000000 - 1999 * 1000000\<rparr>" 0]
  note off = activity_led_on_below_2000ms [OF h, of _ _
      "\<lparr>arrived = [], now_motors = 5000000000, lastMotorsAccess = 5000000000,
        now_led = 5000000000, lastAccess = 5000000000 - 2000 * 1000000\<rparr>" 0]
  from h on [of 13 True] off [of 13 False] off [of 13 True] show ?thesis
    by simp
qed

text \<open>
  C9 (camera errors). \<open>OnError\<close> prints the message and, when the error is fatal,
  does to the exit event what the signal handler does; otherwise it leaves the event
  as it was. From an event that is not set, the event is set afterwards exactly when
  the error is fatal. At a wait of the loop a fatal error ends the loop as a signal
  does; after an error that is not fatal the loop goes on as if nothing had arrived,
  the message apart.
\<close>

theorem fatal_error_signals_exit:
  "OnError errorMessage fatal ev =
     (if fatal then sigIntHandler s ev else ev, [Printf (CameraErrorMsg fatal errorMessage)])
   \<and> (fst (OnError errorMessage fatal False) \<longleftrightarrow> fatal)
   \<and> run_loop b (e\<lparr>arrived := [VideoSourceError errorMessage True]\<rparr> # es) False saveCounter =
       Some [Printf (CameraErrorMsg True errorMessage)]
   \<and> run_loop b (e\<lparr>arrived := [OsSignal s]\<rparr> # es) False saveCounter = Some []
   \<and> run_loop b (e\<lparr>arrived := [VideoSourceError errorMessage False]\<rparr> # es) False saveCounter =
       map_option ((@) [Printf (CameraErrorMsg False errorMessage)])
         (run_loop b (e\<lparr>arrived := []\<rparr> # es) False saveCounter)"
  by (simp add: OnError_def sigIntHandler_def Signal_def Wait_def loop_body_arrived
      option.map_comp comp_def)

text \<open>A fatal error and one that is not, each from an event that is not set.\<close>

theorem fatal_error_signals_exit_witness:
  "fst (OnError ''camera lost'' True False) \<and> \<not> fst (OnError ''frame dropped'' False False)
   \<and> OnError ''camera lost'' True False = (sigIntHandler 2 False, [Printf (CameraErrorMsg True ''camera lost'')])"
proof -
  note fatal = fatal_error_signals_exit [where errorMessage = "''camera lost''" and fatal = True
      and ev = False and s = 2 and b = example_build and e = idle_tick and es = "[]"
      and saveCounter = 0]
  note plain = fatal_error_signals_exit [where errorMessage = "''frame dropped''" and fatal = False
      and ev = False and s = 2 and b = example_build and e = idle_tick and es = "[]"
      and saveCounter = 0]
  from fatal [THEN conjunct1] fatal [THEN conjunct2, THEN conjunct1]
    plain [THEN conjunct2, THEN conjunct1]
  show ?thesis by simp
qed

text \<open>
  C10 as stated (a well-formed \<open>-htpass\<close> with no \<open>-viewer\<close> or \<open>-config\<close>
  after it leaves the viewers group \<open>User\<close> and the configuration group
  \<open>Admin\<close>) fails for \<open>-viewer:any -config:any -htpass:f\<close>. The last argument
  sets the two groups when it is parsed and nothing follows it, yet all three arguments
  are consumed and the groups returned are both \<open>Anyone\<close>: the overrides are kept
  in the variables of the loop and applied after it, wherever their arguments stood.
\<close>

theorem override_before_htpass_counterexample:
  "parse_arg ''-htpass:f'' \<lparr>settings = example_settings, viewersGroup = Some Anyone,
       configGroup = Some Anyone\<rparr> =
     Some \<lparr>settings = example_settings\<lparr>HtDigestFileName := ''f'', ViewersGroup := User,
                                        ConfigGroup := Admin\<rparr>,
           viewersGroup = Some Anyone, configGroup = Some Anyone\<rparr>
   \<and> consumed [''pirexbot'', ''-viewer:any'', ''-config:any'', ''-htpass:f''] =
       [''-viewer:any'', ''-config:any'', ''-htpass:f'']
   \<and> fst (ParseCommandLine [''pirexbot'', ''-viewer:any'', ''-config:any'', ''-htpass:f'']
        example_settings)
   \<and> HtDigestFileName (fst (snd (ParseCommandLine
        [''pirexbot'', ''-viewer:any'', ''-config:any'', ''-htpass:f''] example_settings))) = ''f''
   \<and> ViewersGroup (fst (snd (ParseCommandLine
        [''pirexbot'', ''-viewer:any'', ''-config:any'', ''-htpass:f''] example_settings))) = Anyone
   \<and> ConfigGroup (fst (snd (ParseCommandLine
        [''pirexbot'', ''-viewer:any'', ''-config:any'', ''-htpass:f''] example_settings))) = Anyone"
proof -
  have "parse_arg ''-htpass:f'' \<lparr>settings = example_settings, viewersGroup = Some Anyone,
       configGroup = Some Anyone\<rparr> =
     Some \<lparr>settings = example_settings\<lparr>HtDigestFileName := ''f'', ViewersGroup := User,
                                        ConfigGroup := Admin\<rparr>,
           viewersGroup = Some Anyone, configGroup = Some Anyone\<rparr>"
    by (simp add: arg_defs)
  moreover have "consumed [''pirexbot'', ''-viewer:any'', ''-config:any'', ''-htpass:f''] =
       [''-viewer:any'', ''-config:any'', ''-htpass:f'']"
    by (simp add: consumed_def rejected_defs)
  moreover have "fst (ParseCommandLine [''pirexbot'', ''-viewer:any'', ''-config:any'', ''-htpass:f'']
        example_settings)"
    "HtDigestFileName (fst (snd (ParseCommandLine
        [''pirexbot'', ''-viewer:any'', ''-config:any'', ''-htpass:f''] example_settings))) = ''f''"
    "ViewersGroup (fst (snd (ParseCommandLine
        [''pirexbot'', ''-viewer:any'', ''-config:any'', ''-htpass:f''] example_settings))) = Anyone"
    "ConfigGroup (fst (snd (ParseCommandLine
        [''pirexbot'', ''-viewer:any'', ''-config:any'', ''-htpass:f''] example_settings))) = Anyone"
    unfolding ParseCommandLine_unfold [OF override_first_loop] by simp_all
  ultimately show ?thesis by blast
qed

text \<open>
  C10 as amended. Parsing \<open>-htpass:v\<close> with \<open>v\<close> not empty sets the users file
  to \<open>v\<close>, the viewers group to \<open>User\<close> and the configuration group to
  \<open>Admin\<close>. When such an argument is among those consumed, the groups returned are
  these two, each replaced by the group requested with \<open>-viewer\<close>, respectively
  \<open>-config\<close>, when that option is among the consumed arguments too, before or after
  it; so with no \<open>-viewer\<close> and no \<open>-config\<close> consumed anywhere the groups
  returned are \<open>User\<close> and \<open>Admin\<close>.
\<close>

theorem htpass_sets_User_and_Admin:
  assumes "v \<noteq> []"
    and "''-htpass:'' @ v \<in> set (consumed argv)"
  shows "parse_arg (''-htpass:'' @ v) s =
           Some (s\<lparr>settings := (settings s)
                    \<lparr>HtDigestFileName := v, ViewersGroup := User, ConfigGroup := Admin\<rparr>\<rparr>)
       \<and> ViewersGroup (fst (snd (ParseCommandLine argv S0))) =
           (case requested ''viewer'' (consumed argv) of None \<Rightarrow> User | Some g \<Rightarrow> g)
       \<and> ConfigGroup (fst (snd (ParseCommandLine argv S0))) =
           (case requested ''config'' (consumed argv) of None \<Rightarrow> Admin | Some g \<Rightarrow> g)
       \<and> ((\<forall>arg\<in>set (consumed argv). arg_key arg \<noteq> ''viewer'' \<and> arg_key arg \<noteq> ''config'') \<longrightarrow>
            ViewersGroup (fst (snd (ParseCommandLine argv S0))) = User \<and>
            ConfigGroup (fst (snd (ParseCommandLine argv S0))) = Admin)"
proof -
  obtain i st where run:
    "parse_loop argv 1 \<lparr>settings = S0, viewersGroup = None, configGroup = None\<rparr> = (i, st)"
    by (cases "parse_loop argv 1 \<lparr>settings = S0, viewersGroup = None, configGroup = None\<rparr>") blast
  from consumed_nth [OF run assms(2)] obtain k
    where k: "1 \<le> k" "k < i" "argv ! k = ''-htpass:'' @ v" by blast
  from htpass_locals [OF assms(1) run k] locals_requested [OF run]
  have groups: "ViewersGroup (fst (snd (ParseCommandLine argv S0))) =
           (case requested ''viewer'' (consumed argv) of None \<Rightarrow> User | Some g \<Rightarrow> g)"
       "ConfigGroup (fst (snd (ParseCommandLine argv S0))) =
           (case requested ''config'' (consumed argv) of None \<Rightarrow> Admin | Some g \<Rightarrow> g)"
    by simp_all
  have "(\<forall>arg\<in>set (consumed argv). arg_key arg \<noteq> ''viewer'' \<and> arg_key arg \<noteq> ''config'') \<longrightarrow>
            ViewersGroup (fst (snd (ParseCommandLine argv S0))) = User \<and>
            ConfigGroup (fst (snd (ParseCommandLine argv S0))) = Admin"
    using groups requested_None [of "consumed argv" "''viewer''"]
      requested_None [of "consumed argv" "''config''"]
    by auto
  with groups parse_arg_htpass [OF assms(1)] show ?thesis by blast
qed

text \<open>A users file and a title, no group asked for.\<close>

theorem htpass_sets_User_and_Admin_witness:
  "''users.htdigest'' \<noteq> []
   \<and> consumed [''pirexbot'', ''-htpass:users.htdigest'', ''-title:Rex''] =
       [''-htpass:users.htdigest'', ''-title:Rex'']
   \<and> arg_key ''-htpass:users.htdigest'' = ''htpass'' \<and> arg_key ''-title:Rex'' = ''title''
   \<and> ParseCommandLine [''pirexbot'', ''-htpass:users.htdigest'', ''-title:Rex''] example_settings =
       (True, example_settings\<lparr>HtDigestFileName := ''users.htdigest'', ViewersGroup := User,
                      ConfigGroup := Admin, BotTitle := ''Rex''\<rparr>, [])
   \<and> ViewersGroup (fst (snd (ParseCommandLine
        [''pirexbot'', ''-htpass:users.htdigest'', ''-title:Rex''] example_settings))) = User
   \<and> ConfigGroup (fst (snd (ParseCommandLine
        [''pirexbot'', ''-htpass:users.htdigest'', ''-title:Rex''] example_settings))) = Admin"
proof -
  have h1: "''users.htdigest'' \<noteq> []" by simp
  have c: "consumed [''pirexbot'', ''-htpass:users.htdigest'', ''-title:Rex''] =
       [''-htpass:users.htdigest'', ''-title:Rex'']"
    by (simp add: consumed_def rejected_defs)
  have h2: "''-htpass:'' @ ''users.htdigest''
      \<in> set (consumed [''pirexbot'', ''-htpass:users.htdigest'', ''-title:Rex''])"
    unfolding c by simp
  have keys: "arg_key ''-htpass:users.htdigest'' = ''htpass''" "arg_key ''-title:Rex'' = ''title''"
    by (simp_all add: arg_key_def)
  have h3: "\<forall>arg\<in>set (consumed [''pirexbot'', ''-htpass:users.htdigest'', ''-title:Rex'']).
      arg_key arg \<noteq> ''viewer'' \<and> arg_key arg \<noteq> ''config''"
    unfolding c using keys by simp
  have p: "ParseCommandLine [''pirexbot'', ''-htpass:users.htdigest'', ''-title:Rex''] example_settings =
       (True, example_settings\<lparr>HtDigestFileName := ''users.htdigest'', ViewersGroup := User,
                      ConfigGroup := Admin, BotTitle := ''Rex''\<rparr>, [])"
    unfolding ParseCommandLine_unfold [OF htpass_loop] by simp
  note t = htpass_sets_User_and_Admin [OF h1 h2, of _ example_settings]
  from t h3 have "ViewersGroup (fst (snd (ParseCommandLine
        [''pirexbot'', ''-htpass:users.htdigest'', ''-title:Rex''] example_settings))) = User"
    and "ConfigGroup (fst (snd (ParseCommandLine
        [''pirexbot'', ''-htpass:users.htdigest'', ''-title:Rex''] example_settings))) = Admin"
    by blast+
  with h1 c keys p show ?thesis by blast
qed

end
